theory Spec2Isabelle
  imports Main "HOL-Library.AList"
begin

section \<open>Strings as the program uses them\<close>

text \<open>
  The program is TypeScript. A text of the program is modelled as a HOL string holding
  its bytes in UTF-8: an ASCII character is one \<open>char\<close>, every other character is a
  sequence of two to four \<open>char\<close>s, all of them 0x80 or above. The patterns the program
  searches for are ASCII, and an ASCII byte never lies inside the sequence of another
  character, so searching the bytes finds what the program finds.
\<close>

text \<open>\<^verbatim>\<open>s.startsWith(p)\<close>\<close>

fun startsWith :: "string \<Rightarrow> string \<Rightarrow> bool" where
  "startsWith s [] = True"
| "startsWith [] (p # ps) = False"
| "startsWith (c # cs) (p # ps) = (c = p \<and> startsWith cs ps)"

text \<open>
  The white space of the language, which \<^verbatim>\<open>String.prototype.trim\<close> removes and the
  class \<^verbatim>\<open>\s\<close> matches: tab, line feed, vertical tab, form feed, carriage return and
  space, and after them U+00A0, U+1680, U+2000 to U+200A, U+2028, U+2029, U+202F,
  U+205F, U+3000 and U+FEFF, each as its bytes.
\<close>

definition whiteSpaces :: "string list" where
  "whiteSpaces =
     [[CHR 0x09], [CHR ''\<newline>''], [CHR 0x0B], [CHR 0x0C], [CHR 0x0D], [CHR '' ''],
      [CHR 0xC2, CHR 0xA0],
      [CHR 0xE1, CHR 0x9A, CHR 0x80],
      [CHR 0xE2, CHR 0x80, CHR 0x80],
      [CHR 0xE2, CHR 0x80, CHR 0x81],
      [CHR 0xE2, CHR 0x80, CHR 0x82],
      [CHR 0xE2, CHR 0x80, CHR 0x83],
      [CHR 0xE2, CHR 0x80, CHR 0x84],
      [CHR 0xE2, CHR 0x80, CHR 0x85],
      [CHR 0xE2, CHR 0x80, CHR 0x86],
      [CHR 0xE2, CHR 0x80, CHR 0x87],
      [CHR 0xE2, CHR 0x80, CHR 0x88],
      [CHR 0xE2, CHR 0x80, CHR 0x89],
      [CHR 0xE2, CHR 0x80, CHR 0x8A],
      [CHR 0xE2, CHR 0x80, CHR 0xA8],
      [CHR 0xE2, CHR 0x80, CHR 0xA9],
      [CHR 0xE2, CHR 0x80, CHR 0xAF],
      [CHR 0xE2, CHR 0x81, CHR 0x9F],
      [CHR 0xE3, CHR 0x80, CHR 0x80],
      [CHR 0xEF, CHR 0xBB, CHR 0xBF]]"

text \<open>
  White space is removed from the front of a text one character after the other, until
  the text begins with none. \<open>ws\<close> lists the characters to remove, each as its bytes.
\<close>

function stripLeading :: "string list \<Rightarrow> string \<Rightarrow> string" where
  "stripLeading ws [] = []"
| "stripLeading ws (c # cs) =
     (case find (\<lambda>w. startsWith (c # cs) w) ws of
        Some w \<Rightarrow> stripLeading ws (drop (length w - 1) cs)
      | None \<Rightarrow> c # cs)"
  by pat_completeness auto
termination
  by (relation "measure (\<lambda>(ws, s). length s)") auto

text \<open>\<^verbatim>\<open>s.trimStart()\<close>, \<^verbatim>\<open>s.trimEnd()\<close> and \<^verbatim>\<open>s.trim()\<close>\<close>

definition trimStart :: "string \<Rightarrow> string" where
  "trimStart s = stripLeading whiteSpaces s"

definition trimEnd :: "string \<Rightarrow> string" where
  "trimEnd s = rev (stripLeading (map rev whiteSpaces) (rev s))"

definition trim :: "string \<Rightarrow> string" where
  "trim s = trimEnd (trimStart s)"

definition lowerLetters :: string where
  "lowerLetters = ''abcdefghijklmnopqrstuvwxyz''"

definition upperLetters :: string where
  "upperLetters = ''ABCDEFGHIJKLMNOPQRSTUVWXYZ''"

definition digits :: string where
  "digits = ''0123456789''"

text \<open>
  The regular expression class \<^verbatim>\<open>\w\<close>: the ASCII letters, the digits and the
  underscore.
\<close>

definition isWordChar :: "char \<Rightarrow> bool" where
  "isWordChar c = (c \<in> set lowerLetters \<or> c \<in> set upperLetters \<or> c \<in> set digits \<or> c = CHR ''_'')"

text \<open>The upper case of an ASCII character; a byte of another character is left alone.\<close>

definition toUpperCase_char :: "char \<Rightarrow> char" where
  "toUpperCase_char c =
     (case map_of (zip lowerLetters upperLetters) c of Some u \<Rightarrow> u | None \<Rightarrow> c)"

text \<open>
  The characters outside ASCII whose upper case contains an ASCII character, with that
  upper case: U+00DF, U+0131, U+0149, U+017F, U+01F0, U+1E96 to U+1E9A and U+FB00 to
  U+FB06.
\<close>

definition specialCasing :: "(string \<times> string) list" where
  "specialCasing =
     [([CHR 0xC3, CHR 0x9F], [CHR 0x53, CHR 0x53]),
      ([CHR 0xC4, CHR 0xB1], [CHR 0x49]),
      ([CHR 0xC5, CHR 0x89], [CHR 0xCA, CHR 0xBC, CHR 0x4E]),
      ([CHR 0xC5, CHR 0xBF], [CHR 0x53]),
      ([CHR 0xC7, CHR 0xB0], [CHR 0x4A, CHR 0xCC, CHR 0x8C]),
      ([CHR 0xE1, CHR 0xBA, CHR 0x96], [CHR 0x48, CHR 0xCC, CHR 0xB1]),
      ([CHR 0xE1, CHR 0xBA, CHR 0x97], [CHR 0x54, CHR 0xCC, CHR 0x88]),
      ([CHR 0xE1, CHR 0xBA, CHR 0x98], [CHR 0x57, CHR 0xCC, CHR 0x8A]),
      ([CHR 0xE1, CHR 0xBA, CHR 0x99], [CHR 0x59, CHR 0xCC, CHR 0x8A]),
      ([CHR 0xE1, CHR 0xBA, CHR 0x9A], [CHR 0x41, CHR 0xCA, CHR 0xBE]),
      ([CHR 0xEF, CHR 0xAC, CHR 0x80], [CHR 0x46, CHR 0x46]),
      ([CHR 0xEF, CHR 0xAC, CHR 0x81], [CHR 0x46, CHR 0x49]),
      ([CHR 0xEF, CHR 0xAC, CHR 0x82], [CHR 0x46, CHR 0x4C]),
      ([CHR 0xEF, CHR 0xAC, CHR 0x83], [CHR 0x46, CHR 0x46, CHR 0x49]),
      ([CHR 0xEF, CHR 0xAC, CHR 0x84], [CHR 0x46, CHR 0x46, CHR 0x4C]),
      ([CHR 0xEF, CHR 0xAC, CHR 0x85], [CHR 0x53, CHR 0x54]),
      ([CHR 0xEF, CHR 0xAC, CHR 0x86], [CHR 0x53, CHR 0x54])]"

text \<open>
  \<^verbatim>\<open>s.toUpperCase()\<close>, as far as the program can tell: ASCII letters and the characters
  of \<open>specialCasing\<close> get their upper case. Any other character outside ASCII is left as
  it is; its upper case has no ASCII character in it, and the program reads the result
  for ASCII characters only.
\<close>

function toUpperCase :: "string \<Rightarrow> string" where
  "toUpperCase [] = []"
| "toUpperCase (c # cs) =
     (case find (\<lambda>(w, u). startsWith (c # cs) w) specialCasing of
        Some (w, u) \<Rightarrow> u @ toUpperCase (drop (length w - 1) cs)
      | None \<Rightarrow> toUpperCase_char c # toUpperCase cs)"
  by pat_completeness auto
termination
  by (relation "measure length") auto

text \<open>\<^verbatim>\<open>s.includes(p)\<close>: \<open>p\<close> occurs at some position of \<open>s\<close>.\<close>

fun includes_str :: "string \<Rightarrow> string \<Rightarrow> bool" where
  "includes_str [] p = (p = [])"
| "includes_str (c # cs) p = (startsWith (c # cs) p \<or> includes_str cs p)"

text \<open>
  \<^verbatim>\<open>s.indexOf(p)\<close> as a split: the text before the first occurrence of \<open>p\<close> and the
  text after it, \<open>None\<close> when \<open>p\<close> does not occur.
\<close>

fun splitAtFirst :: "string \<Rightarrow> string \<Rightarrow> (string \<times> string) option" where
  "splitAtFirst p [] = (if p = [] then Some ([], []) else None)"
| "splitAtFirst p (c # cs) =
     (if startsWith (c # cs) p then Some ([], drop (length p) (c # cs))
      else (case splitAtFirst p cs of
              None \<Rightarrow> None
            | Some (pre, post) \<Rightarrow> Some (c # pre, post)))"

section \<open>The SQL validator (src/lib/agent.ts, validateSqlQuery)\<close>

record validation =
  valid :: bool
  error :: "string option"

definition dangerousKeywords :: "string list" where
  "dangerousKeywords =
     [''INSERT'', ''UPDATE'', ''DELETE'', ''DROP'', ''TRUNCATE'', ''ALTER'',
      ''CREATE'', ''GRANT'', ''REVOKE'', ''EXECUTE'', ''EXEC'', ''CALL'',
      ''SET'', ''COPY'', ''LOAD'', ''VACUUM'', ''REINDEX'', ''CLUSTER'']"

text \<open>
  The assertion \<^verbatim>\<open>\b\<close> holds between two positions when exactly one of the characters
  on its sides is a word character; beyond either end of the text there is none.
  \<open>left\<close> says whether the character on the left is a word character.
\<close>

definition wordBoundary :: "bool \<Rightarrow> string \<Rightarrow> bool" where
  "wordBoundary left rest =
     (left \<noteq> (case rest of [] \<Rightarrow> False | c # _ \<Rightarrow> isWordChar c))"

text \<open>Matching a literal under the flag \<^verbatim>\<open>i\<close>: characters are compared after case folding.\<close>

fun startsWith_ci :: "string \<Rightarrow> string \<Rightarrow> bool" where
  "startsWith_ci s [] = True"
| "startsWith_ci [] (p # ps) = False"
| "startsWith_ci (c # cs) (p # ps) =
     (toUpperCase_char c = toUpperCase_char p \<and> startsWith_ci cs ps)"

text \<open>
  One attempt of \<^verbatim>\<open>new RegExp(`\\b${keyword}\\b`, 'i')\<close> at the current position:
  a boundary, the keyword, a boundary.
\<close>

definition regex_word_at :: "string \<Rightarrow> bool \<Rightarrow> string \<Rightarrow> bool" where
  "regex_word_at keyword left rest =
     (wordBoundary left rest \<and> startsWith_ci rest keyword \<and>
      wordBoundary
        (if keyword = [] then left else isWordChar (last (take (length keyword) rest)))
        (drop (length keyword) rest))"

text \<open>\<^verbatim>\<open>regex.test(s)\<close>: the attempt is made at every position, from the left.\<close>

fun regex_word_scan :: "string \<Rightarrow> bool \<Rightarrow> string \<Rightarrow> bool" where
  "regex_word_scan keyword left [] = regex_word_at keyword left []"
| "regex_word_scan keyword left (c # cs) =
     (regex_word_at keyword left (c # cs) \<or> regex_word_scan keyword (isWordChar c) cs)"

definition regex_word_test :: "string \<Rightarrow> string \<Rightarrow> bool" where
  "regex_word_test keyword s = regex_word_scan keyword False s"

text \<open>
  \<^verbatim>\<open>s.replace(/q[^q]*q/g, '')\<close> for a quote character \<open>q\<close>: from the left, a quote
  that has a later quote is removed together with everything up to and including the
  next quote; a quote with no later quote stays.
\<close>

function replace_quoted :: "char \<Rightarrow> string \<Rightarrow> string" where
  "replace_quoted q [] = []"
| "replace_quoted q (c # cs) =
     (if c = q \<and> q \<in> set cs then replace_quoted q (tl (dropWhile (\<lambda>x. x \<noteq> q) cs))
      else c # replace_quoted q cs)"
  by pat_completeness auto
termination
proof (relation "measure (\<lambda>(q, s). length s)")
  fix q :: char and c cs
  have "length (tl (dropWhile (\<lambda>x. x \<noteq> q) cs)) \<le> length cs"
    using length_dropWhile_le [of "\<lambda>x. x \<noteq> q" cs] by simp
  then show "((q, tl (dropWhile (\<lambda>x. x \<noteq> q) cs)), (q, c # cs)) \<in> measure (\<lambda>(q, s). length s)"
    by simp
qed auto

text \<open>The two locals of validateSqlQuery.\<close>

definition trimmed :: "string \<Rightarrow> string" where
  "trimmed sql = toUpperCase (trim sql)"

definition withoutStrings :: "string \<Rightarrow> string" where
  "withoutStrings sql = replace_quoted (CHR 0x22) (replace_quoted (CHR 0x27) (trimmed sql))"

definition startError :: string where
  "startError = ''Only SELECT queries are allowed. Query must start with SELECT or WITH.''"

definition keywordError :: "string \<Rightarrow> string" where
  "keywordError keyword =
     ''Query contains forbidden keyword: '' @ keyword @ ''. Only SELECT queries are allowed.''"

definition multipleError :: string where
  "multipleError = ''Multiple SQL statements are not allowed.''"

definition commentError :: string where
  "commentError = ''SQL comments are not allowed.''"

definition validateSqlQuery :: "string \<Rightarrow> validation" where
  "validateSqlQuery sql =
     (if \<not> startsWith (trimmed sql) ''SELECT'' \<and> \<not> startsWith (trimmed sql) ''WITH''
      then \<lparr>valid = False, error = Some startError\<rparr>
      else (case find (\<lambda>keyword. regex_word_test keyword (trimmed sql)) dangerousKeywords of
              Some keyword \<Rightarrow> \<lparr>valid = False, error = Some (keywordError keyword)\<rparr>
            | None \<Rightarrow>
                if includes_str (withoutStrings sql) '';''
                then \<lparr>valid = False, error = Some multipleError\<rparr>
                else if includes_str (trimmed sql) ''--'' \<or> includes_str (trimmed sql) ''/*''
                then \<lparr>valid = False, error = Some commentError\<rparr>
                else \<lparr>valid = True, error = None\<rparr>))"

section \<open>The agent's answer (src/lib/agent.ts, createQueryAgent)\<close>

subsection \<open>The step log\<close>

text \<open>
  What \<^verbatim>\<open>generateText\<close> returns, as far as \<^verbatim>\<open>query\<close> reads it: the final text and the
  steps, each with the tool calls of that step. An absent (undefined) property is
  \<open>None\<close>.
\<close>

record tool_args =
  command :: "string option"
  path :: "string option"

record toolCall =
  toolName :: "string option"
  args :: "tool_args option"

record step =
  toolCalls :: "toolCall list option"
  step_text :: string

record generated =
  result_text :: string
  result_steps :: "step list option"

text \<open>A string in a condition holds when it is present and not empty.\<close>

definition truthy :: "string option \<Rightarrow> bool" where
  "truthy v = (case v of None \<Rightarrow> False | Some x \<Rightarrow> x \<noteq> [])"

text \<open>\<^verbatim>\<open>tc.args?.command\<close> and \<^verbatim>\<open>tc.args?.path\<close>\<close>

definition args_command :: "toolCall \<Rightarrow> string option" where
  "args_command tc = (case args tc of None \<Rightarrow> None | Some a \<Rightarrow> command a)"

definition args_path :: "toolCall \<Rightarrow> string option" where
  "args_path tc = (case args tc of None \<Rightarrow> None | Some a \<Rightarrow> path a)"

text \<open>A value inside a template literal.\<close>

definition interpolate :: "string option \<Rightarrow> string" where
  "interpolate v = (case v of None \<Rightarrow> ''undefined'' | Some x \<Rightarrow> x)"

text \<open>The body of the inner loop: at most one \<^verbatim>\<open>steps.push\<close> for a tool call.\<close>

definition push_toolCall :: "string list \<Rightarrow> toolCall \<Rightarrow> string list" where
  "push_toolCall steps tc =
     (if toolName tc = Some ''bash'' \<and> truthy (args_command tc)
      then steps @ [''$ '' @ interpolate (args_command tc)]
      else if toolName tc = Some ''readFile'' \<and> truthy (args_path tc)
      then steps @ [''$ cat '' @ interpolate (args_path tc)]
      else if truthy (toolName tc)
      then steps @ [''['' @ interpolate (toolName tc) @ ''] executed'']
      else steps)"

text \<open>The tool calls of a step; none when the step has no such property.\<close>

definition callsOf :: "step \<Rightarrow> toolCall list" where
  "callsOf st = (case toolCalls st of None \<Rightarrow> [] | Some tcs \<Rightarrow> tcs)"

definition push_step :: "string list \<Rightarrow> step \<Rightarrow> string list" where
  "push_step steps st =
     (case toolCalls st of None \<Rightarrow> steps | Some tcs \<Rightarrow> foldl push_toolCall steps tcs)"

definition extract_steps :: "generated \<Rightarrow> string list" where
  "extract_steps result =
     (case result_steps result of None \<Rightarrow> [] | Some sts \<Rightarrow> foldl push_step [] sts)"

subsection \<open>Parsing the final text\<close>

definition sqlFence :: string where
  "sqlFence = [CHR 0x60, CHR 0x60, CHR 0x60] @ ''sql'' @ [CHR ''\<newline>'']"

definition fence :: string where
  "fence = [CHR 0x60, CHR 0x60, CHR 0x60]"

text \<open>
  \<^verbatim>\<open>finalResponse.match(/```sql\n([\s\S]*?)```/)\<close>, the captured group: from the left,
  the first position where the opening fence stands and a closing fence follows; the
  group is lazy, so it ends at the first closing fence.
\<close>

fun match_sql :: "string \<Rightarrow> string option" where
  "match_sql [] = None"
| "match_sql (c # cs) =
     (if startsWith (c # cs) sqlFence
      then (case splitAtFirst fence (drop (length sqlFence) (c # cs)) of
              Some (body, rest) \<Rightarrow> Some body
            | None \<Rightarrow> match_sql cs)
      else match_sql cs)"

definition parse_sql :: "string \<Rightarrow> string" where
  "parse_sql finalResponse =
     (case match_sql finalResponse of Some body \<Rightarrow> trim body | None \<Rightarrow> [])"

definition explanationMarker :: string where
  "explanationMarker = ''**Explanation:**''"

definition sqlQueryMarker :: string where
  "sqlQueryMarker = ''**SQL Query:''"

text \<open>
  \<^verbatim>\<open>finalResponse.match(/\*\*Explanation:\*\*\s*([\s\S]*?)(?=\*\*SQL Query:|$)/)\<close>, the
  captured group: after the first marker and the white space behind it, the text up to
  the first \<^verbatim>\<open>**SQL Query:\<close>, or up to the end of the text.
\<close>

fun match_explanation :: "string \<Rightarrow> string option" where
  "match_explanation [] = None"
| "match_explanation (c # cs) =
     (if startsWith (c # cs) explanationMarker
      then (let rest = trimStart (drop (length explanationMarker) (c # cs))
            in case splitAtFirst sqlQueryMarker rest of
                 Some (body, _) \<Rightarrow> Some body
               | None \<Rightarrow> Some rest)
      else match_explanation cs)"

text \<open>\<^verbatim>\<open>finalResponse.split('```')[0]\<close>\<close>

definition before_first_fence :: "string \<Rightarrow> string" where
  "before_first_fence finalResponse =
     (case splitAtFirst fence finalResponse of Some (pre, _) \<Rightarrow> pre | None \<Rightarrow> finalResponse)"

definition parse_explanation :: "string \<Rightarrow> string" where
  "parse_explanation finalResponse =
     (case match_explanation finalResponse of
        Some body \<Rightarrow> trim body
      | None \<Rightarrow> trim (before_first_fence finalResponse))"

record AgentResponse =
  explanation :: string
  sql :: string
  steps :: "string list"

text \<open>What \<^verbatim>\<open>query\<close> makes of the result of \<^verbatim>\<open>generateText\<close>.\<close>

definition agentResponse :: "generated \<Rightarrow> AgentResponse" where
  "agentResponse result =
     \<lparr>explanation = parse_explanation (result_text result),
      sql = parse_sql (result_text result),
      steps = extract_steps result\<rparr>"

subsection \<open>The step budget of the tool loop\<close>

text \<open>The argument of \<^verbatim>\<open>stepCountIs\<close> in the call of \<^verbatim>\<open>generateText\<close>.\<close>

definition stepBudget :: nat where
  "stepBudget = 10"

text \<open>
  Modelled from the spec: the loop inside \<^verbatim>\<open>generateText\<close>, which belongs to the
  imported package \<^verbatim>\<open>ai\<close> and is not among the sources. The provider is asked for a
  step and the step is recorded; the loop ends when the step issued no tool call, or when
  \<open>stepBudget\<close> steps are recorded (\<^verbatim>\<open>stopWhen: stepCountIs(10)\<close>), whichever comes
  first, and the text of the last step is the final text. The provider is a function of
  the steps so far. A step carries the list of the tool calls it issued: that is how
  agent.ts reads \<^verbatim>\<open>step.toolCalls\<close>, with a loop over its elements.
\<close>

definition hasToolCalls :: "step \<Rightarrow> bool" where
  "hasToolCalls st = (case toolCalls st of None \<Rightarrow> False | Some tcs \<Rightarrow> tcs \<noteq> [])"

fun generate_steps :: "nat \<Rightarrow> (step list \<Rightarrow> step) \<Rightarrow> step list \<Rightarrow> step list" where
  "generate_steps 0 provider sofar = sofar"
| "generate_steps (Suc budget) provider sofar =
     (let st = provider sofar
      in if hasToolCalls st then generate_steps budget provider (sofar @ [st])
         else sofar @ [st])"

definition generateText :: "(step list \<Rightarrow> step) \<Rightarrow> generated" where
  "generateText provider =
     (let sts = generate_steps stepBudget provider []
      in \<lparr>result_text = (if sts = [] then [] else step_text (last sts)),
          result_steps = Some sts\<rparr>)"

section \<open>The schema as files (src/lib/schema.ts, schemaToFiles)\<close>

text \<open>
  The interfaces of src/lib/types.ts. Three of them have fields of the same names; the
  fields of a column carry the prefix \<open>col_\<close> and those of a foreign key \<open>fk_\<close>.
\<close>

record TableInfo =
  table_schema :: string
  table_name :: string
  table_type :: string

record ColumnInfo =
  col_table_schema :: string
  col_table_name :: string
  column_name :: string
  data_type :: string
  is_nullable :: string
  column_default :: "string option"
  character_maximum_length :: "int option"

record ForeignKeyInfo =
  constraint_name :: string
  fk_table_schema :: string
  fk_table_name :: string
  fk_column_name :: string
  foreign_table_schema :: string
  foreign_table_name :: string
  foreign_column_name :: string

record SchemaInfo =
  tables :: "TableInfo list"
  columns :: "ColumnInfo list"
  foreignKeys :: "ForeignKeyInfo list"

text \<open>
  \<^verbatim>\<open>Record<string, string>\<close>: an object keeps its keys in the order of their first
  assignment, and a later assignment to a key replaces the text in place.
\<close>

type_synonym files = "(string \<times> string) list"

text \<open>The arrow of the foreign key lines (U+2192), as its three bytes in UTF-8.\<close>

definition arrow :: string where
  "arrow = [CHR 0xE2, CHR 0x86, CHR 0x92]"

definition nl :: string where
  "nl = [CHR ''\<newline>'']"

definition overviewHeader :: string where
  "overviewHeader = ''# Database Schema Overview'' @ nl @ nl @ ''## Tables'' @ nl @ nl"

definition overviewLine :: "TableInfo \<Rightarrow> string" where
  "overviewLine t = ''- '' @ table_name t @ '' ('' @ table_type t @ '')'' @ nl"

definition overview :: "SchemaInfo \<Rightarrow> string" where
  "overview schema = foldl (\<lambda>text t. text @ overviewLine t) overviewHeader (tables schema)"

definition tableColumns :: "SchemaInfo \<Rightarrow> TableInfo \<Rightarrow> ColumnInfo list" where
  "tableColumns schema t = filter (\<lambda>c. col_table_name c = table_name t) (columns schema)"

definition tableFKs :: "SchemaInfo \<Rightarrow> TableInfo \<Rightarrow> ForeignKeyInfo list" where
  "tableFKs schema t = filter (\<lambda>fk. fk_table_name fk = table_name t) (foreignKeys schema)"

definition tableHeading :: "TableInfo \<Rightarrow> string" where
  "tableHeading t =
     ''# Table: '' @ table_name t @ nl @ nl @
     ''Type: '' @ table_type t @ nl @
     ''Schema: '' @ table_schema t @ nl @ nl"

definition columnsHeader :: string where
  "columnsHeader =
     ''## Columns'' @ nl @ nl @
     ''| Column | Type | Nullable | Default |'' @ nl @
     ''|--------|------|----------|--------|'' @ nl"

definition columnRow :: "ColumnInfo \<Rightarrow> string" where
  "columnRow col =
     (let nullable = (if is_nullable col = ''YES'' then ''Yes'' else ''No'');
          defaultVal = (if truthy (column_default col) then interpolate (column_default col)
                        else ''-'')
      in ''| '' @ column_name col @ '' | '' @ data_type col @ '' | '' @ nullable @
         '' | '' @ defaultVal @ '' |'' @ nl)"

definition foreignKeyLine :: "ForeignKeyInfo \<Rightarrow> string" where
  "foreignKeyLine fk =
     ''- '' @ fk_column_name fk @ '' '' @ arrow @ '' '' @
     foreign_table_name fk @ ''.'' @ foreign_column_name fk @ nl"

definition columnRows :: "SchemaInfo \<Rightarrow> TableInfo \<Rightarrow> string" where
  "columnRows schema t = foldl (\<lambda>text col. text @ columnRow col) [] (tableColumns schema t)"

definition foreignKeysSection :: "SchemaInfo \<Rightarrow> TableInfo \<Rightarrow> string" where
  "foreignKeysSection schema t =
     (if length (tableFKs schema t) > 0
      then foldl (\<lambda>text fk. text @ foreignKeyLine fk)
             (nl @ ''## Foreign Keys'' @ nl @ nl) (tableFKs schema t)
      else [])"

text \<open>
  The text of a table's file, in the order in which the source appends to it: heading,
  header of the column table, one row for each column, foreign keys if there are any.
\<close>

definition tableContent :: "SchemaInfo \<Rightarrow> TableInfo \<Rightarrow> string" where
  "tableContent schema t =
     tableHeading t @ columnsHeader @ columnRows schema t @ foreignKeysSection schema t"

definition tablePath :: "TableInfo \<Rightarrow> string" where
  "tablePath t = ''schema/tables/'' @ table_name t @ ''.md''"

definition relationshipLine :: "ForeignKeyInfo \<Rightarrow> string" where
  "relationshipLine fk =
     ''- '' @ fk_table_name fk @ ''.'' @ fk_column_name fk @ '' '' @ arrow @ '' '' @
     foreign_table_name fk @ ''.'' @ foreign_column_name fk @ nl"

definition relationships :: "SchemaInfo \<Rightarrow> string" where
  "relationships schema =
     foldl (\<lambda>text fk. text @ relationshipLine fk)
       (''# Table Relationships'' @ nl @ nl @ ''## Foreign Key Relationships'' @ nl @ nl)
       (foreignKeys schema)"

text \<open>\<^verbatim>\<open>xs.join(sep)\<close>\<close>

fun join :: "string \<Rightarrow> string list \<Rightarrow> string" where
  "join sep [] = []"
| "join sep [x] = x"
| "join sep (x # y # ys) = x @ sep @ join sep (y # ys)"

definition summaryEntry :: "SchemaInfo \<Rightarrow> TableInfo \<Rightarrow> string" where
  "summaryEntry schema t =
     ''### '' @ table_name t @ nl @
     join nl (map (\<lambda>c. ''- '' @ column_name c @ '' ('' @ data_type c @ '')'')
                (tableColumns schema t)) @
     nl @ nl"

definition summary :: "SchemaInfo \<Rightarrow> string" where
  "summary schema =
     foldl (\<lambda>text t. text @ summaryEntry schema t)
       (''# Quick Reference'' @ nl @ nl @ ''## All Tables and Columns'' @ nl @ nl)
       (tables schema)"

definition schemaToFiles :: "SchemaInfo \<Rightarrow> files" where
  "schemaToFiles schema =
     (let files = [];
          files = AList.update ''schema/overview.md'' (overview schema) files;
          files = foldl (\<lambda>fs t. AList.update (tablePath t) (tableContent schema t) fs)
                    files (tables schema);
          files = (if length (foreignKeys schema) > 0
                   then AList.update ''schema/relationships.md'' (relationships schema) files
                   else files)
      in AList.update ''schema/summary.md'' (summary schema) files)"

section \<open>The query endpoint (src/app/api/query/route.ts, POST)\<close>

record Credentials =
  supabaseUrl :: string
  supabaseAnonKey :: string
  llmProvider :: string
  llmModel :: "string option"
  llmApiKey :: string

text \<open>What a \<^verbatim>\<open>catch\<close> receives: an \<^verbatim>\<open>Error\<close> with its message, or any other value.\<close>

datatype thrown = Error string | NotAnError

datatype llm_client = OpenAI string | Anthropic string | Google string

definition createLLMClient :: "Credentials \<Rightarrow> thrown + llm_client" where
  "createLLMClient credentials =
     (if llmProvider credentials = ''openai'' then Inr (OpenAI (llmApiKey credentials))
      else if llmProvider credentials = ''anthropic''
      then Inr (Anthropic (llmApiKey credentials))
      else if llmProvider credentials = ''google'' then Inr (Google (llmApiKey credentials))
      else Inl (Error (''Unknown LLM provider: '' @ llmProvider credentials)))"

definition getModelId :: "string \<Rightarrow> string option \<Rightarrow> string" where
  "getModelId provider modelOverride =
     (if truthy modelOverride then interpolate modelOverride
      else if provider = ''openai'' then ''gpt-4o-mini''
      else if provider = ''anthropic'' then ''claude-sonnet-4-20250514''
      else if provider = ''google'' then ''gemini-3-pro-preview''
      else ''gpt-4o-mini'')"

text \<open>
  The rows of a result (\<^verbatim>\<open>Record<string, unknown>[]\<close> in src/lib/types.ts): each row
  gives its columns by name, the values as text.
\<close>

type_synonym rows = "(string \<times> string) list list"

text \<open>
  The result of \<^verbatim>\<open>supabase.rpc\<close>: the rows (or null) and, when the database reported an
  error, the message of that error.
\<close>

record rpcResult =
  rpc_data :: "rows option"
  rpc_error :: "string option"

text \<open>
  The collaborators outside the sources, as functions of what they are called with:
  \<^verbatim>\<open>createBashTool\<close> and \<^verbatim>\<open>createClient\<close> return or throw, \<^verbatim>\<open>generateText\<close> returns its
  result or throws, \<^verbatim>\<open>supabase.rpc('execute_query', ...)\<close> returns its result or throws.
\<close>

record world =
  ext_createBashTool :: "files \<Rightarrow> thrown option"
  ext_generateText :: "llm_client \<Rightarrow> string \<Rightarrow> files \<Rightarrow> string \<Rightarrow> thrown + generated"
  ext_createClient :: "string \<Rightarrow> string \<Rightarrow> thrown option"
  ext_rpc :: "string \<Rightarrow> thrown + rpcResult"

definition createQueryAgent ::
  "world \<Rightarrow> files \<Rightarrow> Credentials \<Rightarrow> thrown + (string \<Rightarrow> thrown + AgentResponse)" where
  "createQueryAgent w schemaFiles credentials =
     (case ext_createBashTool w schemaFiles of
        Some e \<Rightarrow> Inl e
      | None \<Rightarrow>
          (case createLLMClient credentials of
             Inl e \<Rightarrow> Inl e
           | Inr client \<Rightarrow>
               (let modelId = getModelId (llmProvider credentials) (llmModel credentials)
                in Inr (\<lambda>question.
                     case ext_generateText w client modelId schemaFiles question of
                       Inl e \<Rightarrow> Inl e
                     | Inr result \<Rightarrow> Inr (agentResponse result)))))"

text \<open>\<^verbatim>\<open>s.replace(/;+$/, '')\<close>: the run of semicolons at the end of the text is removed.\<close>

definition replace_trailing_semicolons :: "string \<Rightarrow> string" where
  "replace_trailing_semicolons s = rev (dropWhile (\<lambda>c. c = CHR '';'') (rev s))"

definition cleanSql :: "string \<Rightarrow> string" where
  "cleanSql sqlText = replace_trailing_semicolons (trim sqlText)"

text \<open>
  The JSON body of a response and its status. A property that the body does not have is
  \<open>None\<close>; \<open>json_data = Some None\<close> is \<^verbatim>\<open>data: null\<close>.
\<close>

record response =
  status :: nat
  json_success :: "bool option"
  json_error :: "string option"
  json_explanation :: "string option"
  json_sql :: "string option"
  json_steps :: "string list option"
  json_data :: "rows option option"
  json_note :: "string option"

record requestBody =
  body_question :: "string option"
  body_credentials :: "Credentials option"
  body_schema :: "SchemaInfo option"

text \<open>The calls a request makes, in their order.\<close>

datatype call =
  Call_schemaToFiles
  | Call_createQueryAgent
  | Call_query string
  | Call_validateSqlQuery string
  | Call_createSupabaseClient
  | Call_rpc string

definition emptyBody :: "response" where
  "emptyBody =
     \<lparr>status = 200, json_success = None, json_error = None, json_explanation = None,
      json_sql = None, json_steps = None, json_data = None, json_note = None\<rparr>"

definition badRequest :: "response" where
  "badRequest =
     emptyBody\<lparr>status := 400, json_error := Some ''Missing question, credentials, or schema''\<rparr>"

definition serverError :: "thrown \<Rightarrow> response" where
  "serverError e =
     emptyBody\<lparr>status := 500, json_success := Some False,
       json_error := Some (case e of Error m \<Rightarrow> m | NotAnError \<Rightarrow> ''Failed to process query'')\<rparr>"

definition extractionError :: string where
  "extractionError =
     ''Could not extract SQL from the response. Please try rephrasing your question.''"

definition extractionFailure :: "AgentResponse \<Rightarrow> response" where
  "extractionFailure result =
     emptyBody\<lparr>json_success := Some False, json_error := Some extractionError,
       json_explanation := Some (explanation result), json_steps := Some (steps result)\<rparr>"

definition validationFailure :: "validation \<Rightarrow> AgentResponse \<Rightarrow> response" where
  "validationFailure validation result =
     emptyBody\<lparr>json_success := Some False, json_error := error validation,
       json_explanation := Some (explanation result), json_sql := Some (sql result),
       json_steps := Some (steps result)\<rparr>"

definition rpcNote :: "string \<Rightarrow> string" where
  "rpcNote message =
     ''SQL generated successfully. RPC error: '' @ message @
     ''. To execute queries directly, set up an execute_query RPC function in your Supabase project.''"

definition sqlOnly :: "string \<Rightarrow> AgentResponse \<Rightarrow> response" where
  "sqlOnly message result =
     emptyBody\<lparr>json_success := Some True, json_explanation := Some (explanation result),
       json_sql := Some (sql result), json_steps := Some (steps result),
       json_data := Some None, json_note := Some (rpcNote message)\<rparr>"

definition executed :: "rows option \<Rightarrow> AgentResponse \<Rightarrow> response" where
  "executed rows result =
     emptyBody\<lparr>json_success := Some True, json_explanation := Some (explanation result),
       json_sql := Some (sql result), json_steps := Some (steps result),
       json_data := Some rows\<rparr>"

text \<open>
  The inner \<^verbatim>\<open>try\<close>: the values of \<^verbatim>\<open>data\<close> and \<^verbatim>\<open>executeError\<close> (its message) after it.
\<close>

definition execute :: "world \<Rightarrow> string \<Rightarrow> rows option \<times> string option" where
  "execute w sqlText =
     (case ext_rpc w (cleanSql sqlText) of
        Inl e \<Rightarrow> (None, Some ''RPC not available'')
      | Inr rpcResult \<Rightarrow> (rpc_data rpcResult, rpc_error rpcResult))"

text \<open>The handler from the check of the extracted SQL on.\<close>

definition respond ::
  "world \<Rightarrow> Credentials \<Rightarrow> AgentResponse \<Rightarrow> call list \<Rightarrow> response \<times> call list" where
  "respond w credentials result calls =
     (if sql result = [] \<or> trim (sql result) = [] then (extractionFailure result, calls)
      else
        (let validation = validateSqlQuery (sql result);
             calls = calls @ [Call_validateSqlQuery (sql result)]
         in if \<not> valid validation then (validationFailure validation result, calls)
            else
              (case ext_createClient w (supabaseUrl credentials) (supabaseAnonKey credentials) of
                 Some e \<Rightarrow> (serverError e, calls @ [Call_createSupabaseClient])
               | None \<Rightarrow>
                   (let calls = calls @ [Call_createSupabaseClient, Call_rpc (cleanSql (sql result))]
                    in case execute w (sql result) of
                         (rows, Some message) \<Rightarrow> (sqlOnly message result, calls)
                       | (rows, None) \<Rightarrow> (executed rows result, calls)))))"

text \<open>
  The handler. \<open>request\<close> is what \<^verbatim>\<open>await request.json()\<close> gives: the body, or the
  exception it throws.
\<close>

definition POST :: "world \<Rightarrow> thrown + requestBody \<Rightarrow> response \<times> call list" where
  "POST w request =
     (case request of
        Inl e \<Rightarrow> (serverError e, [])
      | Inr body \<Rightarrow>
          if \<not> truthy (body_question body) \<or> body_credentials body = None \<or>
             body_schema body = None
          then (badRequest, [])
          else
            (let question = interpolate (body_question body);
                 credentials = the (body_credentials body);
                 schemaFiles = schemaToFiles (the (body_schema body))
             in case createQueryAgent w schemaFiles credentials of
                  Inl e \<Rightarrow> (serverError e, [Call_schemaToFiles, Call_createQueryAgent])
                | Inr agent \<Rightarrow>
                    (case agent question of
                       Inl e \<Rightarrow>
                         (serverError e,
                          [Call_schemaToFiles, Call_createQueryAgent, Call_query question])
                     | Inr result \<Rightarrow>
                         respond w credentials result
                           [Call_schemaToFiles, Call_createQueryAgent, Call_query question])))"

section \<open>Example inputs\<close>

text \<open>
  The schema of the example in the specification, \<^verbatim>\<open>orders(id int, total numeric)\<close>, a
  request about it, and collaborators that answer without failing.
\<close>

abbreviation example_credentials :: Credentials where
  "example_credentials \<equiv>
     \<lparr>supabaseUrl = ''https://db.example.test'', supabaseAnonKey = ''anon'',
      llmProvider = ''openai'', llmModel = None, llmApiKey = ''key''\<rparr>"

abbreviation example_schema :: SchemaInfo where
  "example_schema \<equiv>
     \<lparr>tables = [\<lparr>table_schema = ''public'', table_name = ''orders'', table_type = ''BASE TABLE''\<rparr>],
      columns =
        [\<lparr>col_table_schema = ''public'', col_table_name = ''orders'', column_name = ''id'',
          data_type = ''int'', is_nullable = ''NO'', column_default = None,
          character_maximum_length = None\<rparr>,
         \<lparr>col_table_schema = ''public'', col_table_name = ''orders'', column_name = ''total'',
          data_type = ''numeric'', is_nullable = ''YES'', column_default = Some ''0'',
          character_maximum_length = None\<rparr>],
      foreignKeys = []\<rparr>"

abbreviation example_body :: requestBody where
  "example_body \<equiv>
     \<lparr>body_question = Some ''show me the first 5 orders'',
      body_credentials = Some example_credentials, body_schema = Some example_schema\<rparr>"

abbreviation example_generated :: "string \<Rightarrow> generated" where
  "example_generated answer \<equiv>
     \<lparr>result_text = answer,
      result_steps = Some
        [\<lparr>toolCalls = Some [\<lparr>toolName = Some ''bash'',
             args = Some \<lparr>command = Some ''cat schema/summary.md'', path = None\<rparr>\<rparr>],
          step_text = []\<rparr>,
         \<lparr>toolCalls = Some [], step_text = answer\<rparr>]\<rparr>"

abbreviation example_world :: "string \<Rightarrow> (string \<Rightarrow> thrown + rpcResult) \<Rightarrow> world" where
  "example_world answer rpc \<equiv>
     \<lparr>ext_createBashTool = (\<lambda>schemaFiles. None),
      ext_generateText = (\<lambda>client modelId schemaFiles question. Inr (example_generated answer)),
      ext_createClient = (\<lambda>url anonKey. None),
      ext_rpc = rpc\<rparr>"

abbreviation example_answer :: string where
  "example_answer \<equiv>
     ''**Explanation:** The first five orders. **SQL Query:** '' @ sqlFence @
     ''SELECT * FROM orders LIMIT 5'' @ nl @ fence"

abbreviation example_empty_table :: TableInfo where
  "example_empty_table \<equiv>
     \<lparr>table_schema = ''public'', table_name = ''audit_log'', table_type = ''VIEW''\<rparr>"

section \<open>Properties\<close>

subsection \<open>Strings\<close>

lemma startsWith_iff: "startsWith s p \<longleftrightarrow> (\<exists>r. s = p @ r)"
  by (induction s p rule: startsWith.induct) auto

lemma startsWith_append_notin:
  "c \<notin> set w \<Longrightarrow> startsWith (a @ c # b) w = startsWith a w"
  by (induction a w rule: startsWith.induct) auto

lemma startsWith_length: "startsWith s w \<Longrightarrow> length w \<le> length s"
  by (auto simp: startsWith_iff)


lemma find_startsWith_append:
  assumes "\<forall>w\<in>set ws. c \<notin> set w"
  shows "find (\<lambda>w. startsWith (a @ c # b) w) ws = find (\<lambda>w. startsWith a w) ws"
  using assms by (induction ws) (simp_all add: startsWith_append_notin)

lemma find_startsWith_Nil:
  "[] \<notin> set ws \<Longrightarrow> find (\<lambda>w. startsWith [] w) ws = None"
  by (induction ws) (auto simp: startsWith_iff)

lemma stripLeading_keeps:
  assumes "\<forall>w\<in>set ws. c \<notin> set w" "[] \<notin> set ws"
  shows "\<exists>a'. stripLeading ws (a @ c # r) = a' @ c # r"
proof (induction "length a" arbitrary: a rule: less_induct)
  case less
  show ?case
  proof (cases a)
    case Nil
    have "find (\<lambda>w. startsWith (c # r) w) ws = None"
      using find_startsWith_append [OF assms(1), of "[]" r] find_startsWith_Nil [OF assms(2)]
      by simp
    with Nil show ?thesis by simp
  next
    case (Cons x xs)
    have f: "find (\<lambda>w. startsWith (x # xs @ c # r) w) ws = find (\<lambda>w. startsWith (x # xs) w) ws"
      using find_startsWith_append [OF assms(1), of "x # xs" r] by simp
    show ?thesis
    proof (cases "find (\<lambda>w. startsWith (x # xs) w) ws")
      case None
      with f Cons have "stripLeading ws (a @ c # r) = a @ c # r" by simp
      then show ?thesis by blast
    next
      case (Some w)
      then have "startsWith (x # xs) w" by (auto simp: find_Some_iff)
      then have "length w - 1 \<le> length xs" using startsWith_length by fastforce
      then have d: "drop (length w - 1) (xs @ c # r) = drop (length w - 1) xs @ c # r"
        by simp
      have "length (drop (length w - 1) xs) < length a" using Cons by simp
      from less [OF this] obtain a' where
        "stripLeading ws (drop (length w - 1) xs @ c # r) = a' @ c # r" by blast
      with f Some Cons d show ?thesis by simp
    qed
  qed
qed



lemma whiteSpaces_nonempty: "[] \<notin> set whiteSpaces" "[] \<notin> set (map rev whiteSpaces)"
  by (simp_all add: whiteSpaces_def)

lemma includes_str_iff: "includes_str s p \<longleftrightarrow> (\<exists>a b. s = a @ p @ b)"
proof (induction s)
  case Nil
  show ?case by simp
next
  case (Cons c cs)
  show ?case
  proof
    assume "includes_str (c # cs) p"
    then consider "startsWith (c # cs) p" | "includes_str cs p" by auto
    then show "\<exists>a b. c # cs = a @ p @ b"
    proof cases
      case 1
      then obtain r where "c # cs = p @ r" by (auto simp: startsWith_iff)
      then have "c # cs = [] @ p @ r" by simp
      then show ?thesis by blast
    next
      case 2
      with Cons.IH obtain a b where "cs = a @ p @ b" by blast
      then have "c # cs = (c # a) @ p @ b" by simp
      then show ?thesis by blast
    qed
  next
    assume "\<exists>a b. c # cs = a @ p @ b"
    then obtain a b where ab: "c # cs = a @ p @ b" by blast
    show "includes_str (c # cs) p"
    proof (cases a)
      case Nil
      with ab have "startsWith (c # cs) p" by (auto simp: startsWith_iff)
      then show ?thesis by simp
    next
      case (Cons x a')
      with ab have "cs = a' @ p @ b" by simp
      with Cons.IH have "includes_str cs p" by blast
      then show ?thesis by simp
    qed
  qed
qed

lemma includes_str_trim:
  assumes "includes_str s p" "p \<noteq> []"
    and "\<forall>w\<in>set whiteSpaces. hd p \<notin> set w" "\<forall>w\<in>set whiteSpaces. last p \<notin> set w"
  shows "includes_str (trim s) p"
proof -
  from assms(1) obtain a b where s: "s = a @ p @ b" by (auto simp: includes_str_iff)
  from assms(2) have p1: "p = hd p # tl p" by simp
  from assms(2) have p2: "rev p = last p # rev (butlast p)"
    by (cases p rule: rev_cases) auto
  note p = p1 p2
  from stripLeading_keeps [OF assms(3) whiteSpaces_nonempty(1), of a "tl p @ b"] s p(1)
  obtain a' where 1: "trimStart s = a' @ p @ b"
    by (metis append_Cons append_assoc trimStart_def)
  have "\<forall>w\<in>set (map rev whiteSpaces). last p \<notin> set w" using assms(4) by simp
  from stripLeading_keeps [OF this whiteSpaces_nonempty(2), of "rev b" "rev (butlast p) @ rev a'"] p(2)
  obtain b' where "stripLeading (map rev whiteSpaces) (rev b @ rev p @ rev a') = b' @ rev p @ rev a'"
    by (metis append_Cons append_assoc)
  with 1 have "trim s = a' @ p @ rev b'" by (simp add: trim_def trimEnd_def)
  then show ?thesis by (auto simp: includes_str_iff)
qed

lemma includes_str_single: "includes_str s [x] \<longleftrightarrow> x \<in> set s"
  by (induction s) auto

lemma upper_fix: "c \<notin> set lowerLetters \<Longrightarrow> toUpperCase_char c = c"
proof -
  assume "c \<notin> set lowerLetters"
  then have "map_of (zip lowerLetters upperLetters) c = None"
    by (simp add: map_of_eq_None_iff lowerLetters_def upperLetters_def)
  then show ?thesis by (simp add: toUpperCase_char_def)
qed

lemma find_special_append:
  assumes "\<forall>(w, u)\<in>set tab. c \<notin> set w"
  shows "find (\<lambda>(w, u). startsWith (a @ c # b) w) tab = find (\<lambda>(w, u). startsWith a w) tab"
  using assms by (induction tab) (auto simp: startsWith_append_notin)

lemma find_special_Nil:
  "\<forall>(w, u)\<in>set tab. w \<noteq> [] \<Longrightarrow> find (\<lambda>(w, u). startsWith [] w) tab = None"
  by (induction tab) (auto simp: startsWith_iff)

lemma specialCasing_nonempty: "\<forall>(w, u)\<in>set specialCasing. w \<noteq> []"
  by (simp add: specialCasing_def)

lemma toUpperCase_append_safe:
  assumes "\<forall>(w, u)\<in>set specialCasing. c \<notin> set w"
  shows "toUpperCase (a @ c # b) = toUpperCase a @ toUpperCase_char c # toUpperCase b"
proof (induction "length a" arbitrary: a rule: less_induct)
  case less
  show ?case
  proof (cases a)
    case Nil
    have "find (\<lambda>(w, u). startsWith (c # b) w) specialCasing = None"
      using find_special_append [OF assms, of "[]" b] find_special_Nil [OF specialCasing_nonempty]
      by simp
    with Nil show ?thesis by simp
  next
    case (Cons x xs)
    have f: "find (\<lambda>(w, u). startsWith (x # xs @ c # b) w) specialCasing =
             find (\<lambda>(w, u). startsWith (x # xs) w) specialCasing"
      using find_special_append [OF assms, of "x # xs" b] by simp
    show ?thesis
    proof (cases "find (\<lambda>(w, u). startsWith (x # xs) w) specialCasing")
      case None
      have "length xs < length a" using Cons by simp
      from less [OF this] f None Cons show ?thesis by simp
    next
      case (Some wu)
      obtain w u where wu: "wu = (w, u)" by (cases wu)
      with Some have "startsWith (x # xs) w" by (auto simp: find_Some_iff)
      then have "length w - 1 \<le> length xs" using startsWith_length by fastforce
      then have d: "drop (length w - 1) (xs @ c # b) = drop (length w - 1) xs @ c # b"
        by simp
      have "length (drop (length w - 1) xs) < length a" using Cons by simp
      from less [OF this] f Some wu Cons d show ?thesis by simp
    qed
  qed
qed

lemma toUpperCase_fixed_prefix:
  assumes "\<forall>c\<in>set p. (\<forall>(w, u)\<in>set specialCasing. c \<notin> set w) \<and> c \<notin> set lowerLetters"
  shows "toUpperCase (p @ b) = p @ toUpperCase b"
  using assms
proof (induction p)
  case Nil
  show ?case by simp
next
  case (Cons c p)
  then have "\<forall>(w, u)\<in>set specialCasing. c \<notin> set w" "c \<notin> set lowerLetters" by simp_all
  with toUpperCase_append_safe [of c "[]" "p @ b"] Cons show ?case
    by (simp add: upper_fix)
qed

lemma includes_str_toUpperCase:
  assumes "includes_str s p" "p \<noteq> []"
    and "\<forall>c\<in>set p. (\<forall>(w, u)\<in>set specialCasing. c \<notin> set w) \<and> c \<notin> set lowerLetters"
  shows "includes_str (toUpperCase s) p"
proof -
  from assms(1) obtain a b where s: "s = a @ p @ b" by (auto simp: includes_str_iff)
  from assms(2) obtain c ps where p: "p = c # ps" by (cases p) auto
  with assms(3) have c: "\<forall>(w, u)\<in>set specialCasing. c \<notin> set w" "c \<notin> set lowerLetters"
    and ps: "\<forall>c\<in>set ps. (\<forall>(w, u)\<in>set specialCasing. c \<notin> set w) \<and> c \<notin> set lowerLetters"
    by simp_all
  have "toUpperCase s = toUpperCase a @ toUpperCase_char c # toUpperCase (ps @ b)"
    using toUpperCase_append_safe [OF c(1), of a "ps @ b"] s p by simp
  also have "\<dots> = toUpperCase a @ p @ toUpperCase b"
    using toUpperCase_fixed_prefix [OF ps, of b] c(2) p by (simp add: upper_fix)
  finally show ?thesis by (auto simp: includes_str_iff)
qed

lemma last_toUpperCase_semicolon:
  assumes "s \<noteq> []" "last s = CHR '';''"
  shows "toUpperCase s \<noteq> [] \<and> last (toUpperCase s) = CHR '';''"
proof -
  from assms obtain a where s: "s = a @ [CHR '';'']" by (cases s rule: rev_cases) auto
  have "\<forall>(w, u)\<in>set specialCasing. CHR '';'' \<notin> set w" by (simp add: specialCasing_def)
  then have "toUpperCase s = toUpperCase a @ [toUpperCase_char (CHR '';'')]"
    using toUpperCase_append_safe [of "CHR '';''" a "[]"] s by simp
  moreover have "toUpperCase_char (CHR '';'') = CHR '';''"
    by (rule upper_fix) (simp add: lowerLetters_def)
  ultimately show ?thesis by simp
qed

lemma trim_Nil: "trim [] = []"
  by (simp add: trim_def trimStart_def trimEnd_def)




lemma replace_quoted_last:
  "s \<noteq> [] \<Longrightarrow> last s \<noteq> q \<Longrightarrow>
   replace_quoted q s \<noteq> [] \<and> last (replace_quoted q s) = last s"
proof (induction q s rule: replace_quoted.induct)
  case (1 q)
  then show ?case by simp
next
  case (2 q c cs)
  show ?case
  proof (cases "c = q \<and> q \<in> set cs")
    case True
    define r where "r = tl (dropWhile (\<lambda>x. x \<noteq> q) cs)"
    from True have "dropWhile (\<lambda>x. x \<noteq> q) cs \<noteq> []" by auto
    moreover from True have "hd (dropWhile (\<lambda>x. x \<noteq> q) cs) = q"
      using hd_dropWhile [of "\<lambda>x. x \<noteq> q" cs] by auto
    ultimately have d: "dropWhile (\<lambda>x. x \<noteq> q) cs = q # r"
      unfolding r_def by (cases "dropWhile (\<lambda>x. x \<noteq> q) cs") auto
    have cs: "cs = takeWhile (\<lambda>x. x \<noteq> q) cs @ q # r"
      using takeWhile_dropWhile_id [of "\<lambda>x. x \<noteq> q" cs] d by simp
    from True have "cs \<noteq> []" by auto
    with "2.prems" have lcs: "last cs \<noteq> q" by simp
    have rne: "r \<noteq> []"
    proof
      assume "r = []"
      with cs have "last cs = q" by (metis last_snoc append_Cons append_Nil last_appendR list.distinct(1) last.simps)
      with lcs show False by simp
    qed
    with cs have "last cs = last r" by (metis last_appendR last_ConsR list.distinct(1))
    with lcs rne "2.IH"(1) [OF True] have "replace_quoted q r \<noteq> [] \<and> last (replace_quoted q r) = last r"
      unfolding r_def by simp
    moreover have "last (c # cs) = last r" using \<open>cs \<noteq> []\<close> \<open>last cs = last r\<close> by simp
    ultimately show ?thesis using True unfolding r_def by simp
  next
    case False
    show ?thesis
    proof (cases "cs = []")
      case True
      with False show ?thesis by simp
    next
      case ne: False
      with "2.prems" have "last cs \<noteq> q" by simp
      with ne "2.IH"(2) [OF False] have "replace_quoted q cs \<noteq> [] \<and> last (replace_quoted q cs) = last cs"
        by simp
      with False ne show ?thesis by auto
    qed
  qed
qed

lemma trailing_semicolon_survives:
  assumes "t \<noteq> []" "last t = CHR '';''"
  shows "includes_str (replace_quoted (CHR 0x22) (replace_quoted (CHR 0x27) t)) '';''"
proof -
  from assms replace_quoted_last [of t "CHR 0x27"]
  have 1: "replace_quoted (CHR 0x27) t \<noteq> []" "last (replace_quoted (CHR 0x27) t) = CHR '';''"
    by simp_all
  with replace_quoted_last [of "replace_quoted (CHR 0x27) t" "CHR 0x22"]
  have 2: "replace_quoted (CHR 0x22) (replace_quoted (CHR 0x27) t) \<noteq> []"
    "last (replace_quoted (CHR 0x22) (replace_quoted (CHR 0x27) t)) = CHR '';''"
    by simp_all
  then have "CHR '';'' \<in> set (replace_quoted (CHR 0x22) (replace_quoted (CHR 0x27) t))"
    by (metis last_in_set)
  then show ?thesis by (simp add: includes_str_single)
qed

subsection \<open>The validator\<close>

lemma keyword_not_select:
  "keyword \<in> set dangerousKeywords \<Longrightarrow>
   \<not> startsWith (keyword @ r) ''SELECT'' \<and> \<not> startsWith (keyword @ r) ''WITH''"
  by (auto simp: dangerousKeywords_def)

lemma valid_iff:
  "valid (validateSqlQuery q) \<longleftrightarrow>
     (startsWith (trimmed q) ''SELECT'' \<or> startsWith (trimmed q) ''WITH'') \<and>
     find (\<lambda>keyword. regex_word_test keyword (trimmed q)) dangerousKeywords = None \<and>
     \<not> includes_str (withoutStrings q) '';'' \<and>
     \<not> includes_str (trimmed q) ''--'' \<and> \<not> includes_str (trimmed q) ''/*''"
  by (auto simp: validateSqlQuery_def split: option.splits)

lemma includes_str_trimmed:
  assumes "includes_str q p" "p = ''--'' \<or> p = ''/*''"
  shows "includes_str (trimmed q) p"
proof -
  from assms(2) have ne: "p \<noteq> []" by auto
  from assms(2) have ws: "\<forall>w\<in>set whiteSpaces. hd p \<notin> set w" "\<forall>w\<in>set whiteSpaces. last p \<notin> set w"
    by (auto simp: whiteSpaces_def)
  from assms(2) have up:
    "\<forall>c\<in>set p. (\<forall>(w, u)\<in>set specialCasing. c \<notin> set w) \<and> c \<notin> set lowerLetters"
    by (auto simp: specialCasing_def lowerLetters_def)
  from assms(1) ne ws have "includes_str (trim q) p" by (rule includes_str_trim)
  then show ?thesis
    unfolding trimmed_def using ne up by (rule includes_str_toUpperCase)
qed

text \<open>
  C1, as stated, fails: \<^verbatim>\<open>DROP TABLE users;\<close> begins with the keyword DROP, and it is
  rejected by the first rule, whose reason does not name DROP.
\<close>

theorem C1_counterexample:
  "startsWith (trimmed ''DROP TABLE users;'') ''DROP'' \<and>
   validateSqlQuery ''DROP TABLE users;'' = \<lparr>valid = False, error = Some startError\<rparr> \<and>
   \<not> includes_str startError ''DROP''"
  by code_simp

text \<open>
  C1 (amended). A query that begins with a mutating keyword is rejected by the start
  rule, with the reason of that rule. The keyword rule names a keyword for a query that
  begins with SELECT or WITH: the first keyword of the list that the query contains as a
  whole word.
\<close>

theorem C1_start_rule_precedes_keyword_rule:
  "(keyword \<in> set dangerousKeywords \<and> startsWith (trimmed q) keyword \<longrightarrow>
      validateSqlQuery q = \<lparr>valid = False, error = Some startError\<rparr>) \<and>
   ((startsWith (trimmed q') ''SELECT'' \<or> startsWith (trimmed q') ''WITH'') \<and>
    find (\<lambda>keyword. regex_word_test keyword (trimmed q')) dangerousKeywords = Some keyword' \<longrightarrow>
      validateSqlQuery q' = \<lparr>valid = False, error = Some (keywordError keyword')\<rparr> \<and>
      includes_str (keywordError keyword') keyword')"
proof (intro conjI impI)
  assume "keyword \<in> set dangerousKeywords \<and> startsWith (trimmed q) keyword"
  then obtain r where "keyword \<in> set dangerousKeywords" "trimmed q = keyword @ r"
    by (auto simp: startsWith_iff)
  with keyword_not_select [of keyword r]
  show "validateSqlQuery q = \<lparr>valid = False, error = Some startError\<rparr>"
    by (simp add: validateSqlQuery_def)
next
  assume "(startsWith (trimmed q') ''SELECT'' \<or> startsWith (trimmed q') ''WITH'') \<and>
    find (\<lambda>keyword. regex_word_test keyword (trimmed q')) dangerousKeywords = Some keyword'"
  then show "validateSqlQuery q' = \<lparr>valid = False, error = Some (keywordError keyword')\<rparr>"
    by (auto simp: validateSqlQuery_def)
next
  have "keywordError keyword' = ''Query contains forbidden keyword: '' @ keyword' @ ''. Only SELECT queries are allowed.''"
    by (simp add: keywordError_def)
  then show "includes_str (keywordError keyword') keyword'"
    unfolding includes_str_iff by blast
qed

theorem C1_start_rule_precedes_keyword_rule_witness:
  "''DROP'' \<in> set dangerousKeywords \<and> startsWith (trimmed ''DROP TABLE users;'') ''DROP'' \<and>
   validateSqlQuery ''DROP TABLE users;'' = \<lparr>valid = False, error = Some startError\<rparr> \<and>
   startsWith (trimmed ''SELECT 1 FROM t WHERE drop = 1'') ''SELECT'' \<and>
   find (\<lambda>keyword. regex_word_test keyword (trimmed ''SELECT 1 FROM t WHERE drop = 1'')) dangerousKeywords = Some ''DROP'' \<and>
   validateSqlQuery ''SELECT 1 FROM t WHERE drop = 1'' = \<lparr>valid = False, error = Some (keywordError ''DROP'')\<rparr> \<and>
   includes_str (keywordError ''DROP'') ''DROP''"
proof -
  have h1: "''DROP'' \<in> set dangerousKeywords \<and> startsWith (trimmed ''DROP TABLE users;'') ''DROP''"
    by code_simp
  have h2: "startsWith (trimmed ''SELECT 1 FROM t WHERE drop = 1'') ''SELECT''"
    by code_simp
  have h3: "find (\<lambda>keyword. regex_word_test keyword (trimmed ''SELECT 1 FROM t WHERE drop = 1'')) dangerousKeywords = Some ''DROP''"
    by code_simp
  from h1 h2 h3
    C1_start_rule_precedes_keyword_rule [of "''DROP''" "''DROP TABLE users;''"
      "''SELECT 1 FROM t WHERE drop = 1''" "''DROP''"]
  show ?thesis by blast
qed

text \<open>
  C3, as stated, fails: \<^verbatim>\<open>SELECT 1; -- x\<close> begins with SELECT and contains a comment
  marker, and it is rejected by the rule on several statements, which comes first.
\<close>

theorem C3_counterexample:
  "startsWith (trimmed ''SELECT 1; -- x'') ''SELECT'' \<and>
   includes_str ''SELECT 1; -- x'' ''--'' \<and>
   validateSqlQuery ''SELECT 1; -- x'' =
     \<lparr>valid = False, error = Some ''Multiple SQL statements are not allowed.''\<rparr>"
  by code_simp

text \<open>
  C3 (amended). Every query that contains \<^verbatim>\<open>--\<close> or \<^verbatim>\<open>/*\<close> is rejected, with the
  reason of the first rule that fails: the reason of the start rule when the query does
  not begin with SELECT or WITH; otherwise the reason that names the first keyword of the
  list that the query contains as a whole word; otherwise, when a semicolon is left
  after the quoted spans are removed, the reason on several statements; otherwise the
  reason on comments.
\<close>

theorem C3_comment_markers_rejected:
  assumes "includes_str q ''--'' \<or> includes_str q ''/*''"
  shows "valid (validateSqlQuery q) = False \<and>
    (\<not> startsWith (trimmed q) ''SELECT'' \<and> \<not> startsWith (trimmed q) ''WITH'' \<longrightarrow>
       error (validateSqlQuery q) =
         Some ''Only SELECT queries are allowed. Query must start with SELECT or WITH.'') \<and>
    ((startsWith (trimmed q) ''SELECT'' \<or> startsWith (trimmed q) ''WITH'') \<and>
     find (\<lambda>keyword. regex_word_test keyword (trimmed q)) dangerousKeywords = Some keyword \<longrightarrow>
       error (validateSqlQuery q) =
         Some (''Query contains forbidden keyword: '' @ keyword @
               ''. Only SELECT queries are allowed.'')) \<and>
    ((startsWith (trimmed q) ''SELECT'' \<or> startsWith (trimmed q) ''WITH'') \<and>
     find (\<lambda>keyword. regex_word_test keyword (trimmed q)) dangerousKeywords = None \<and>
     includes_str (withoutStrings q) '';'' \<longrightarrow>
       error (validateSqlQuery q) = Some ''Multiple SQL statements are not allowed.'') \<and>
    ((startsWith (trimmed q) ''SELECT'' \<or> startsWith (trimmed q) ''WITH'') \<and>
     find (\<lambda>keyword. regex_word_test keyword (trimmed q)) dangerousKeywords = None \<and>
     \<not> includes_str (withoutStrings q) '';'' \<longrightarrow>
       error (validateSqlQuery q) = Some ''SQL comments are not allowed.'')"
proof -
  from assms have c: "includes_str (trimmed q) ''--'' \<or> includes_str (trimmed q) ''/*''"
    using includes_str_trimmed by blast
  then have 1: "valid (validateSqlQuery q) = False" by (simp add: valid_iff)
  have 2: "\<not> startsWith (trimmed q) ''SELECT'' \<and> \<not> startsWith (trimmed q) ''WITH'' \<longrightarrow>
       error (validateSqlQuery q) =
         Some ''Only SELECT queries are allowed. Query must start with SELECT or WITH.''"
    by (simp add: validateSqlQuery_def startError_def)
  have 3: "(startsWith (trimmed q) ''SELECT'' \<or> startsWith (trimmed q) ''WITH'') \<and>
     find (\<lambda>keyword. regex_word_test keyword (trimmed q)) dangerousKeywords = Some keyword \<longrightarrow>
       error (validateSqlQuery q) =
         Some (''Query contains forbidden keyword: '' @ keyword @
               ''. Only SELECT queries are allowed.'')"
    by (auto simp: validateSqlQuery_def keywordError_def)
  have 4: "(startsWith (trimmed q) ''SELECT'' \<or> startsWith (trimmed q) ''WITH'') \<and>
     find (\<lambda>keyword. regex_word_test keyword (trimmed q)) dangerousKeywords = None \<and>
     includes_str (withoutStrings q) '';'' \<longrightarrow>
       error (validateSqlQuery q) = Some ''Multiple SQL statements are not allowed.''"
    by (auto simp: validateSqlQuery_def multipleError_def)
  from c have 5: "(startsWith (trimmed q) ''SELECT'' \<or> startsWith (trimmed q) ''WITH'') \<and>
     find (\<lambda>keyword. regex_word_test keyword (trimmed q)) dangerousKeywords = None \<and>
     \<not> includes_str (withoutStrings q) '';'' \<longrightarrow>
       error (validateSqlQuery q) = Some ''SQL comments are not allowed.''"
    by (auto simp: validateSqlQuery_def commentError_def)
  from 1 2 3 4 5 show ?thesis by blast
qed

theorem C3_comment_markers_rejected_witness:
  "includes_str ''DROP TABLE t -- x'' ''--'' \<and>
   validateSqlQuery ''DROP TABLE t -- x'' =
     \<lparr>valid = False,
      error = Some ''Only SELECT queries are allowed. Query must start with SELECT or WITH.''\<rparr> \<and>
   includes_str ''SELECT 1 -- drop it'' ''--'' \<and>
   validateSqlQuery ''SELECT 1 -- drop it'' =
     \<lparr>valid = False,
      error = Some ''Query contains forbidden keyword: DROP. Only SELECT queries are allowed.''\<rparr> \<and>
   includes_str ''SELECT 1; /* x */'' ''/*'' \<and>
   validateSqlQuery ''SELECT 1; /* x */'' =
     \<lparr>valid = False, error = Some ''Multiple SQL statements are not allowed.''\<rparr> \<and>
   includes_str ''SELECT 1 /* x */'' ''/*'' \<and>
   validateSqlQuery ''SELECT 1 /* x */'' =
     \<lparr>valid = False, error = Some ''SQL comments are not allowed.''\<rparr>"
proof -
  let ?f = "\<lambda>q. find (\<lambda>keyword. regex_word_test keyword (trimmed q)) dangerousKeywords"
  have a: "includes_str ''DROP TABLE t -- x'' ''--''"
    "\<not> startsWith (trimmed ''DROP TABLE t -- x'') ''SELECT'' \<and>
     \<not> startsWith (trimmed ''DROP TABLE t -- x'') ''WITH''"
    by code_simp+
  have b: "includes_str ''SELECT 1 -- drop it'' ''--''"
    "startsWith (trimmed ''SELECT 1 -- drop it'') ''SELECT''"
    "?f ''SELECT 1 -- drop it'' = Some ''DROP''"
    by code_simp+
  have c: "includes_str ''SELECT 1; /* x */'' ''/*''"
    "startsWith (trimmed ''SELECT 1; /* x */'') ''SELECT''"
    "?f ''SELECT 1; /* x */'' = None"
    "includes_str (withoutStrings ''SELECT 1; /* x */'') '';''"
    by code_simp+
  have d: "includes_str ''SELECT 1 /* x */'' ''/*''"
    "startsWith (trimmed ''SELECT 1 /* x */'') ''SELECT''"
    "?f ''SELECT 1 /* x */'' = None"
    "\<not> includes_str (withoutStrings ''SELECT 1 /* x */'') '';''"
    by code_simp+
  have e: "validateSqlQuery x = \<lparr>valid = False, error = Some m\<rparr>"
    if "valid (validateSqlQuery x) = False" "error (validateSqlQuery x) = Some m" for x m
    using that by (cases "validateSqlQuery x") simp
  from a C3_comment_markers_rejected [of "''DROP TABLE t -- x''"]
  have 1: "validateSqlQuery ''DROP TABLE t -- x'' =
     \<lparr>valid = False,
      error = Some ''Only SELECT queries are allowed. Query must start with SELECT or WITH.''\<rparr>"
    by (intro e) blast+
  from b C3_comment_markers_rejected [of "''SELECT 1 -- drop it''" "''DROP''"]
  have 2: "validateSqlQuery ''SELECT 1 -- drop it'' =
     \<lparr>valid = False,
      error = Some ''Query contains forbidden keyword: DROP. Only SELECT queries are allowed.''\<rparr>"
    by (intro e) auto
  from c C3_comment_markers_rejected [of "''SELECT 1; /* x */''"]
  have 3: "validateSqlQuery ''SELECT 1; /* x */'' =
     \<lparr>valid = False, error = Some ''Multiple SQL statements are not allowed.''\<rparr>"
    by (intro e) blast+
  from d C3_comment_markers_rejected [of "''SELECT 1 /* x */''"]
  have 4: "validateSqlQuery ''SELECT 1 /* x */'' =
     \<lparr>valid = False, error = Some ''SQL comments are not allowed.''\<rparr>"
    by (intro e) blast+
  from a(1) b(1) c(1) d(1) 1 2 3 4 show ?thesis by blast
qed

text \<open>
  C4, as stated, fails in both of its parts. \<^verbatim>\<open>SELECT 1; DROP TABLE users\<close> keeps its
  semicolon after the quoted spans are removed, and it is rejected by the keyword rule,
  whose reason does not cite several statements. \<^verbatim>\<open>SELECT 'drop;'\<close> is a single SELECT
  whose only semicolon lies inside a quoted span, and it is rejected: the keyword rule
  reads inside quoted spans.
\<close>

theorem C4_counterexample:
  "includes_str (withoutStrings ''SELECT 1; DROP TABLE users'') '';'' \<and>
   validateSqlQuery ''SELECT 1; DROP TABLE users'' =
     \<lparr>valid = False,
      error = Some ''Query contains forbidden keyword: DROP. Only SELECT queries are allowed.''\<rparr> \<and>
   startsWith (trimmed (''SELECT 'drop;'' @ [CHR 0x27])) ''SELECT'' \<and>
   includes_str (trimmed (''SELECT 'drop;'' @ [CHR 0x27])) '';'' \<and>
   \<not> includes_str (withoutStrings (''SELECT 'drop;'' @ [CHR 0x27])) '';'' \<and>
   validateSqlQuery (''SELECT 'drop;'' @ [CHR 0x27]) =
     \<lparr>valid = False,
      error = Some ''Query contains forbidden keyword: DROP. Only SELECT queries are allowed.''\<rparr>"
  by code_simp

text \<open>
  C4 (amended). Every query that still contains a semicolon after the quoted spans are
  removed is rejected, with the reason of the first rule that fails: the reason of the
  start rule when the query does not begin with SELECT or WITH; otherwise the reason that
  names the first keyword of the list that the query contains as a whole word; otherwise
  the reason on several statements, as for \<^verbatim>\<open>SELECT 1; SELECT 2;\<close>. A query with no
  semicolon outside quoted spans is accepted, with no reason, exactly when it begins
  with SELECT or WITH, contains no keyword of the list as a whole word, and contains
  neither \<^verbatim>\<open>--\<close> nor \<^verbatim>\<open>/*\<close>; \<^verbatim>\<open>SELECT 'a;b'\<close> is accepted.
\<close>

theorem C4_semicolon_outside_quotes_rejected:
  "(includes_str (withoutStrings q) '';'' \<longrightarrow>
      valid (validateSqlQuery q) = False \<and>
      (\<not> startsWith (trimmed q) ''SELECT'' \<and> \<not> startsWith (trimmed q) ''WITH'' \<longrightarrow>
         error (validateSqlQuery q) =
           Some ''Only SELECT queries are allowed. Query must start with SELECT or WITH.'') \<and>
      ((startsWith (trimmed q) ''SELECT'' \<or> startsWith (trimmed q) ''WITH'') \<and>
       find (\<lambda>keyword. regex_word_test keyword (trimmed q)) dangerousKeywords = Some keyword \<longrightarrow>
         error (validateSqlQuery q) =
           Some (''Query contains forbidden keyword: '' @ keyword @
                 ''. Only SELECT queries are allowed.'')) \<and>
      ((startsWith (trimmed q) ''SELECT'' \<or> startsWith (trimmed q) ''WITH'') \<and>
       find (\<lambda>keyword. regex_word_test keyword (trimmed q)) dangerousKeywords = None \<longrightarrow>
         error (validateSqlQuery q) = Some ''Multiple SQL statements are not allowed.'')) \<and>
   (\<not> includes_str (withoutStrings q') '';'' \<longrightarrow>
      (validateSqlQuery q' = \<lparr>valid = True, error = None\<rparr>) =
        ((startsWith (trimmed q') ''SELECT'' \<or> startsWith (trimmed q') ''WITH'') \<and>
         find (\<lambda>keyword. regex_word_test keyword (trimmed q')) dangerousKeywords = None \<and>
         \<not> includes_str (trimmed q') ''--'' \<and> \<not> includes_str (trimmed q') ''/*'')) \<and>
   validateSqlQuery ''SELECT 1; SELECT 2;'' =
     \<lparr>valid = False, error = Some ''Multiple SQL statements are not allowed.''\<rparr> \<and>
   validateSqlQuery (''SELECT 'a;b'' @ [CHR 0x27]) = \<lparr>valid = True, error = None\<rparr>"
proof -
  have 1: "valid (validateSqlQuery q) = False" if "includes_str (withoutStrings q) '';''"
    using that by (simp add: valid_iff)
  have 2: "\<not> startsWith (trimmed q) ''SELECT'' \<and> \<not> startsWith (trimmed q) ''WITH'' \<longrightarrow>
         error (validateSqlQuery q) =
           Some ''Only SELECT queries are allowed. Query must start with SELECT or WITH.''"
    by (simp add: validateSqlQuery_def startError_def)
  have 3: "(startsWith (trimmed q) ''SELECT'' \<or> startsWith (trimmed q) ''WITH'') \<and>
       find (\<lambda>keyword. regex_word_test keyword (trimmed q)) dangerousKeywords = Some keyword \<longrightarrow>
         error (validateSqlQuery q) =
           Some (''Query contains forbidden keyword: '' @ keyword @
                 ''. Only SELECT queries are allowed.'')"
    by (auto simp: validateSqlQuery_def keywordError_def)
  have 4: "(startsWith (trimmed q) ''SELECT'' \<or> startsWith (trimmed q) ''WITH'') \<and>
       find (\<lambda>keyword. regex_word_test keyword (trimmed q)) dangerousKeywords = None \<longrightarrow>
         error (validateSqlQuery q) = Some ''Multiple SQL statements are not allowed.''"
    if "includes_str (withoutStrings q) '';''"
    using that by (auto simp: validateSqlQuery_def multipleError_def)
  have 5: "(validateSqlQuery q' = \<lparr>valid = True, error = None\<rparr>) =
        ((startsWith (trimmed q') ''SELECT'' \<or> startsWith (trimmed q') ''WITH'') \<and>
         find (\<lambda>keyword. regex_word_test keyword (trimmed q')) dangerousKeywords = None \<and>
         \<not> includes_str (trimmed q') ''--'' \<and> \<not> includes_str (trimmed q') ''/*'')"
    if "\<not> includes_str (withoutStrings q') '';''"
    using that by (auto simp: validateSqlQuery_def split: option.splits)
  have 6: "validateSqlQuery ''SELECT 1; SELECT 2;'' =
     \<lparr>valid = False, error = Some ''Multiple SQL statements are not allowed.''\<rparr>"
    by code_simp
  have 7: "validateSqlQuery (''SELECT 'a;b'' @ [CHR 0x27]) = \<lparr>valid = True, error = None\<rparr>"
    by code_simp
  from 1 2 3 4 5 6 7 show ?thesis by blast
qed

theorem C4_semicolon_outside_quotes_rejected_witness:
  "includes_str (withoutStrings ''SELECT 1; SELECT 2;'') '';'' \<and>
   startsWith (trimmed ''SELECT 1; SELECT 2;'') ''SELECT'' \<and>
   validateSqlQuery ''SELECT 1; SELECT 2;'' =
     \<lparr>valid = False, error = Some ''Multiple SQL statements are not allowed.''\<rparr> \<and>
   includes_str (trimmed (''SELECT 'a;b'' @ [CHR 0x27])) '';'' \<and>
   \<not> includes_str (withoutStrings (''SELECT 'a;b'' @ [CHR 0x27])) '';'' \<and>
   startsWith (trimmed (''SELECT 'a;b'' @ [CHR 0x27])) ''SELECT'' \<and>
   validateSqlQuery (''SELECT 'a;b'' @ [CHR 0x27]) = \<lparr>valid = True, error = None\<rparr>"
proof -
  let ?f = "\<lambda>q. find (\<lambda>keyword. regex_word_test keyword (trimmed q)) dangerousKeywords"
  have a: "includes_str (withoutStrings ''SELECT 1; SELECT 2;'') '';''"
    "startsWith (trimmed ''SELECT 1; SELECT 2;'') ''SELECT''"
    "?f ''SELECT 1; SELECT 2;'' = None"
    by code_simp+
  have b: "includes_str (trimmed (''SELECT 'a;b'' @ [CHR 0x27])) '';''"
    "\<not> includes_str (withoutStrings (''SELECT 'a;b'' @ [CHR 0x27])) '';''"
    "startsWith (trimmed (''SELECT 'a;b'' @ [CHR 0x27])) ''SELECT''"
    "?f (''SELECT 'a;b'' @ [CHR 0x27]) = None"
    "\<not> includes_str (trimmed (''SELECT 'a;b'' @ [CHR 0x27])) ''--''"
    "\<not> includes_str (trimmed (''SELECT 'a;b'' @ [CHR 0x27])) ''/*''"
    by code_simp+
  from a b
    C4_semicolon_outside_quotes_rejected [of "''SELECT 1; SELECT 2;''" _ "''SELECT 'a;b'' @ [CHR 0x27]"]
  show ?thesis by blast
qed

lemma replace_trailing_semicolons_id:
  "s = [] \<or> last s \<noteq> CHR '';'' \<Longrightarrow> replace_trailing_semicolons s = s"
  by (cases s rule: rev_cases) (auto simp: replace_trailing_semicolons_def)

text \<open>
  C10. An accepted query, trimmed, is not empty and does not end with a semicolon, so
  the removal of trailing semicolons before the call of the database leaves it as it is.
  \<^verbatim>\<open>SELECT 1;\<close> is rejected by the rule on several statements, and the handler
  answers with that failure after the call of the validator, without a call of the
  database.
\<close>

theorem C10_validated_sql_has_no_trailing_semicolon:
  "(valid (validateSqlQuery q) \<longrightarrow>
      trim q \<noteq> [] \<and> last (trim q) \<noteq> CHR '';'' \<and> cleanSql q = trim q) \<and>
   validateSqlQuery ''SELECT 1;'' = \<lparr>valid = False, error = Some multipleError\<rparr> \<and>
   respond w credentials \<lparr>explanation = e, sql = ''SELECT 1;'', steps = log\<rparr> calls =
     (validationFailure \<lparr>valid = False, error = Some multipleError\<rparr>
        \<lparr>explanation = e, sql = ''SELECT 1;'', steps = log\<rparr>,
      calls @ [Call_validateSqlQuery ''SELECT 1;''])"
proof (intro conjI impI)
  assume v: "valid (validateSqlQuery q)"
  then have st: "startsWith (trimmed q) ''SELECT'' \<or> startsWith (trimmed q) ''WITH''"
    and ns: "\<not> includes_str (withoutStrings q) '';''"
    by (simp_all add: valid_iff)
  from st have "trimmed q \<noteq> []" by (auto simp: startsWith_iff)
  then have ne: "trim q \<noteq> []" by (auto simp: trimmed_def)
  have nl: "last (trim q) \<noteq> CHR '';''"
  proof
    assume "last (trim q) = CHR '';''"
    with ne have "last (trimmed q) = CHR '';''"
      by (simp add: trimmed_def last_toUpperCase_semicolon)
    with \<open>trimmed q \<noteq> []\<close> have "includes_str (withoutStrings q) '';''"
      unfolding withoutStrings_def by (rule trailing_semicolon_survives)
    with ns show False by simp
  qed
  from ne show "trim q \<noteq> []" .
  from nl show "last (trim q) \<noteq> CHR '';''" .
  from nl show "cleanSql q = trim q"
    by (simp add: cleanSql_def replace_trailing_semicolons_id)
next
  show "validateSqlQuery ''SELECT 1;'' = \<lparr>valid = False, error = Some multipleError\<rparr>"
    by code_simp
next
  have t: "trim ''SELECT 1;'' \<noteq> []" by code_simp
  have v: "validateSqlQuery ''SELECT 1;'' = \<lparr>valid = False, error = Some multipleError\<rparr>"
    by code_simp
  show "respond w credentials \<lparr>explanation = e, sql = ''SELECT 1;'', steps = log\<rparr> calls =
     (validationFailure \<lparr>valid = False, error = Some multipleError\<rparr>
        \<lparr>explanation = e, sql = ''SELECT 1;'', steps = log\<rparr>,
      calls @ [Call_validateSqlQuery ''SELECT 1;''])"
    by (simp add: respond_def Let_def t v)
qed

theorem C10_validated_sql_has_no_trailing_semicolon_witness:
  "valid (validateSqlQuery ''SELECT id, name FROM users LIMIT 10'') \<and>
   trim ''SELECT id, name FROM users LIMIT 10'' \<noteq> [] \<and>
   last (trim ''SELECT id, name FROM users LIMIT 10'') \<noteq> CHR '';'' \<and>
   cleanSql ''SELECT id, name FROM users LIMIT 10'' = trim ''SELECT id, name FROM users LIMIT 10''"
proof -
  have h: "valid (validateSqlQuery ''SELECT id, name FROM users LIMIT 10'')"
    by code_simp
  with C10_validated_sql_has_no_trailing_semicolon [of "''SELECT id, name FROM users LIMIT 10''"]
  show ?thesis by blast
qed

subsection \<open>The parser\<close>




lemma includes_str_tail:
  "\<not> includes_str (x # a) p \<Longrightarrow> \<not> includes_str a p"
  by simp








subsection \<open>The step log\<close>

lemma length_push_toolCall:
  "length (push_toolCall acc tc) = length acc + (if truthy (toolName tc) then 1 else 0)"
  by (auto simp: push_toolCall_def truthy_def)

lemma length_foldl_push_toolCall:
  "length (foldl push_toolCall acc tcs) = length acc + length (filter (\<lambda>tc. truthy (toolName tc)) tcs)"
  by (induction tcs arbitrary: acc) (simp_all add: length_push_toolCall)

lemma length_push_step:
  "length (push_step acc st) = length acc + length (filter (\<lambda>tc. truthy (toolName tc)) (callsOf st))"
  by (simp add: push_step_def callsOf_def length_foldl_push_toolCall split: option.splits)

lemma length_foldl_push_step:
  "length (foldl push_step acc sts) =
     length acc + (\<Sum>st\<leftarrow>sts. length (filter (\<lambda>tc. truthy (toolName tc)) (callsOf st)))"
  by (induction sts arbitrary: acc) (simp_all add: length_push_step)

lemma length_generate_steps:
  "length (generate_steps budget provider sofar) \<le> length sofar + budget"
proof (induction budget arbitrary: sofar)
  case 0
  show ?case by simp
next
  case (Suc budget)
  show ?case using Suc.IH [of "sofar @ [provider sofar]"] by (simp add: Let_def)
qed

lemma sum_list_bounded:
  "(\<forall>x\<in>set xs. f x \<le> (1::nat)) \<Longrightarrow> (\<Sum>x\<leftarrow>xs. f x) \<le> length xs"
  by (induction xs) auto

text \<open>
  C6, as stated, fails: a provider that issues two tool calls in every step is stopped
  after ten steps, and the step log has twenty entries.
\<close>

theorem C6_counterexample:
  "length (steps (agentResponse (generateText (\<lambda>sofar.
      \<lparr>toolCalls = Some
         [\<lparr>toolName = Some ''bash'', args = Some \<lparr>command = Some ''ls schema/'', path = None\<rparr>\<rparr>,
          \<lparr>toolName = Some ''bash'', args = Some \<lparr>command = Some ''cat schema/summary.md'', path = None\<rparr>\<rparr>],
        step_text = []\<rparr>)))) = 20 \<and> stepBudget = 10"
  by code_simp

text \<open>
  C6 (amended). The loop records at most \<open>stepBudget\<close> steps. The step log has one
  entry for each tool call with a name in those steps, so it has at most \<open>stepBudget\<close>
  entries when no step carries more than one tool call.
\<close>

theorem C6_step_log_counts_tool_calls:
  "result_steps (generateText provider) = Some (generate_steps stepBudget provider []) \<and>
   length (generate_steps stepBudget provider []) \<le> stepBudget \<and>
   length (steps (agentResponse (generateText provider))) =
     (\<Sum>st\<leftarrow>generate_steps stepBudget provider [].
        length (filter (\<lambda>tc. truthy (toolName tc)) (callsOf st))) \<and>
   ((\<forall>st\<in>set (generate_steps stepBudget provider []). length (callsOf st) \<le> 1) \<longrightarrow>
      length (steps (agentResponse (generateText provider))) \<le> stepBudget)"
proof -
  let ?sts = "generate_steps stepBudget provider []"
  let ?n = "\<lambda>st. length (filter (\<lambda>tc. truthy (toolName tc)) (callsOf st))"
  have 1: "result_steps (generateText provider) = Some ?sts"
    by (simp add: generateText_def Let_def)
  have 2: "length ?sts \<le> stepBudget"
    using length_generate_steps [of stepBudget provider "[]"] by simp
  have 3: "length (steps (agentResponse (generateText provider))) = (\<Sum>st\<leftarrow>?sts. ?n st)"
    by (simp add: agentResponse_def extract_steps_def 1 length_foldl_push_step)
  have 4: "length (steps (agentResponse (generateText provider))) \<le> stepBudget"
    if h: "\<forall>st\<in>set ?sts. length (callsOf st) \<le> 1"
  proof -
    have "\<forall>st\<in>set ?sts. ?n st \<le> 1"
    proof
      fix st assume "st \<in> set ?sts"
      with h have "length (callsOf st) \<le> 1" by blast
      moreover have "?n st \<le> length (callsOf st)" by (rule length_filter_le)
      ultimately show "?n st \<le> 1" by linarith
    qed
    then have "(\<Sum>st\<leftarrow>?sts. ?n st) \<le> length ?sts" by (rule sum_list_bounded)
    with 2 3 show ?thesis by linarith
  qed
  from 1 2 3 4 show ?thesis by blast
qed

theorem C6_step_log_counts_tool_calls_witness:
  "list_all (\<lambda>st. length (callsOf st) \<le> 1)
     (generate_steps stepBudget (\<lambda>sofar.
        \<lparr>toolCalls = Some [\<lparr>toolName = Some ''bash'',
           args = Some \<lparr>command = Some ''ls schema/'', path = None\<rparr>\<rparr>],
         step_text = []\<rparr>) []) \<and>
   length (generate_steps stepBudget (\<lambda>sofar.
        \<lparr>toolCalls = Some [\<lparr>toolName = Some ''bash'',
           args = Some \<lparr>command = Some ''ls schema/'', path = None\<rparr>\<rparr>],
         step_text = []\<rparr>) []) \<le> stepBudget \<and>
   length (steps (agentResponse (generateText (\<lambda>sofar.
        \<lparr>toolCalls = Some [\<lparr>toolName = Some ''bash'',
           args = Some \<lparr>command = Some ''ls schema/'', path = None\<rparr>\<rparr>],
         step_text = []\<rparr>)))) \<le> stepBudget"
proof -
  let ?p = "\<lambda>sofar :: step list.
        \<lparr>toolCalls = Some [\<lparr>toolName = Some ''bash'',
           args = Some \<lparr>command = Some ''ls schema/'', path = None\<rparr>\<rparr>],
         step_text = []\<rparr>"
  have h: "list_all (\<lambda>st. length (callsOf st) \<le> 1) (generate_steps stepBudget ?p [])"
    by code_simp
  then have "\<forall>st\<in>set (generate_steps stepBudget ?p []). length (callsOf st) \<le> 1"
    by (simp add: list_all_iff)
  with h C6_step_log_counts_tool_calls [of ?p] show ?thesis by blast
qed

subsection \<open>The query endpoint\<close>

lemma POST_reaches_respond:
  assumes "truthy (body_question body)"
    and "body_credentials body = Some credentials"
    and "body_schema body = Some s"
    and "ext_createBashTool w (schemaToFiles s) = None"
    and "createLLMClient credentials = Inr client"
    and "ext_generateText w client (getModelId (llmProvider credentials) (llmModel credentials))
           (schemaToFiles s) (interpolate (body_question body)) = Inr result"
  shows "POST w (Inr body) =
           respond w credentials (agentResponse result)
             [Call_schemaToFiles, Call_createQueryAgent, Call_query (interpolate (body_question body))]"
  using assms by (simp add: POST_def createQueryAgent_def Let_def)

lemma rpcNote_inject: "rpcNote m = rpcNote m' \<longleftrightarrow> m = m'"
  by (simp add: rpcNote_def)

lemma includes_str_rpcNote: "includes_str (rpcNote m) m"
  unfolding includes_str_iff rpcNote_def by blast



text \<open>
  C2, as stated, fails: a database error with the message \<^verbatim>\<open>RPC not available\<close> and a
  call that throws give the same response and the same calls.
\<close>

theorem C2_counterexample:
  "POST (example_world example_answer
           (\<lambda>query_text. Inr \<lparr>rpc_data = None, rpc_error = Some ''RPC not available''\<rparr>))
        (Inr example_body) =
   POST (example_world example_answer (\<lambda>query_text. Inl (Error ''fetch failed'')))
        (Inr example_body)"
  by code_simp

text \<open>
  C2 (amended). When the call of the database returns with an error, the response has
  \<^verbatim>\<open>success: true\<close>, \<^verbatim>\<open>data: null\<close>, the SQL, the explanation, the step log and a note
  that carries the message of the database. A call that throws gives a response of the
  same shape whose note carries \<^verbatim>\<open>RPC not available\<close>; the two responses are equal
  exactly when the message of the database is that text.
\<close>

theorem C2_database_error_in_note:
  assumes "truthy (body_question body)"
    and "body_credentials body = Some credentials"
    and "body_schema body = Some s"
    and "ext_createBashTool w (schemaToFiles s) = None"
    and "createLLMClient credentials = Inr client"
    and "ext_generateText w client (getModelId (llmProvider credentials) (llmModel credentials))
           (schemaToFiles s) (interpolate (body_question body)) = Inr result"
    and "trim (sql (agentResponse result)) \<noteq> []"
    and "valid (validateSqlQuery (sql (agentResponse result)))"
    and "ext_createClient w (supabaseUrl credentials) (supabaseAnonKey credentials) = None"
    and "ext_rpc w (cleanSql (sql (agentResponse result))) = Inr rpcResult"
    and "rpc_error rpcResult = Some message"
  shows "fst (POST w (Inr body)) =
           \<lparr>status = 200, json_success = Some True, json_error = None,
            json_explanation = Some (explanation (agentResponse result)),
            json_sql = Some (sql (agentResponse result)),
            json_steps = Some (steps (agentResponse result)), json_data = Some None,
            json_note = Some (rpcNote message)\<rparr> \<and>
         includes_str (rpcNote message) message \<and>
         fst (POST (w\<lparr>ext_rpc := \<lambda>query_text. Inl e\<rparr>) (Inr body)) =
           \<lparr>status = 200, json_success = Some True, json_error = None,
            json_explanation = Some (explanation (agentResponse result)),
            json_sql = Some (sql (agentResponse result)),
            json_steps = Some (steps (agentResponse result)), json_data = Some None,
            json_note = Some (rpcNote ''RPC not available'')\<rparr> \<and>
         (fst (POST w (Inr body)) = fst (POST (w\<lparr>ext_rpc := \<lambda>query_text. Inl e\<rparr>) (Inr body))
            \<longleftrightarrow> message = ''RPC not available'')"
proof -
  let ?calls = "[Call_schemaToFiles, Call_createQueryAgent, Call_query (interpolate (body_question body))]"
  let ?w' = "w\<lparr>ext_rpc := \<lambda>query_text. Inl e\<rparr>"
  have ne: "sql (agentResponse result) \<noteq> []"
    using assms(7) trim_Nil by auto
  have "POST w (Inr body) = respond w credentials (agentResponse result) ?calls"
    using assms(1-6) by (rule POST_reaches_respond)
  then have 1: "fst (POST w (Inr body)) = sqlOnly message (agentResponse result)"
    using assms(7-11) ne by (simp add: respond_def execute_def Let_def)
  have "POST ?w' (Inr body) = respond ?w' credentials (agentResponse result) ?calls"
    using assms(1-6) by (intro POST_reaches_respond) simp_all
  then have 2: "fst (POST ?w' (Inr body)) = sqlOnly ''RPC not available'' (agentResponse result)"
    using assms(7-9) ne by (simp add: respond_def execute_def Let_def)
  have 3: "sqlOnly message (agentResponse result) =
             sqlOnly ''RPC not available'' (agentResponse result)
           \<longleftrightarrow> message = ''RPC not available''"
    by (simp add: sqlOnly_def emptyBody_def rpcNote_inject)
  show ?thesis
    unfolding 1 2 3
    by (simp add: sqlOnly_def emptyBody_def includes_str_rpcNote)
qed

theorem C2_database_error_in_note_witness:
  "valid (validateSqlQuery (sql (agentResponse (example_generated example_answer)))) \<and>
   fst (POST (example_world example_answer
           (\<lambda>query_text. Inr \<lparr>rpc_data = None, rpc_error = Some ''permission denied for table orders''\<rparr>))
          (Inr example_body)) =
     \<lparr>status = 200, json_success = Some True, json_error = None,
      json_explanation = Some (explanation (agentResponse (example_generated example_answer))),
      json_sql = Some (sql (agentResponse (example_generated example_answer))),
      json_steps = Some (steps (agentResponse (example_generated example_answer))),
      json_data = Some None,
      json_note = Some (rpcNote ''permission denied for table orders'')\<rparr> \<and>
   includes_str (rpcNote ''permission denied for table orders'') ''permission denied for table orders''"
proof -
  let ?r = "\<lparr>rpc_data = None, rpc_error = Some ''permission denied for table orders''\<rparr>"
  let ?w = "example_world example_answer (\<lambda>query_text. Inr ?r)"
  have h1: "truthy (body_question example_body)" by (simp add: truthy_def)
  have h2: "body_credentials example_body = Some example_credentials" by simp
  have h3: "body_schema example_body = Some example_schema" by simp
  have h4: "ext_createBashTool ?w (schemaToFiles example_schema) = None" by simp
  have h5: "createLLMClient example_credentials = Inr (OpenAI ''key'')"
    by (simp add: createLLMClient_def)
  have h6: "ext_generateText ?w (OpenAI ''key'')
      (getModelId (llmProvider example_credentials) (llmModel example_credentials))
      (schemaToFiles example_schema) (interpolate (body_question example_body)) =
      Inr (example_generated example_answer)" by simp
  have h7: "trim (sql (agentResponse (example_generated example_answer))) \<noteq> []"
    by code_simp
  have h8: "valid (validateSqlQuery (sql (agentResponse (example_generated example_answer))))"
    by code_simp
  have h9: "ext_createClient ?w (supabaseUrl example_credentials)
      (supabaseAnonKey example_credentials) = None" by simp
  have h10: "ext_rpc ?w (cleanSql (sql (agentResponse (example_generated example_answer)))) = Inr ?r"
    by simp
  have h11: "rpc_error ?r = Some ''permission denied for table orders''" by simp
  from C2_database_error_in_note [OF h1 h2 h3 h4 h5 h6 h7 h8 h9 h10 h11] h8
  show ?thesis by blast
qed

subsection \<open>The schema files\<close>

text \<open>
  C7. schemaToFiles reads its argument only: equal schemas give equal files, the same
  paths in the same order with the same texts.
\<close>

theorem C7_schemaToFiles_deterministic:
  "schema1 = schema2 \<Longrightarrow>
   schemaToFiles schema1 = schemaToFiles schema2 \<and>
   (\<forall>path. map_of (schemaToFiles schema1) path = map_of (schemaToFiles schema2) path)"
  by simp

theorem C7_schemaToFiles_deterministic_witness:
  "example_schema = example_schema \<and>
   schemaToFiles example_schema = schemaToFiles example_schema \<and>
   (\<forall>path. map_of (schemaToFiles example_schema) path = map_of (schemaToFiles example_schema) path)"
  using C7_schemaToFiles_deterministic [of example_schema example_schema] by simp

lemma foldl_append_concat:
  "foldl (\<lambda>text x. text @ f x) init xs = init @ concat (map f xs)"
  by (induction xs arbitrary: init) simp_all

lemma overview_eq: "overview s = overviewHeader @ concat (map overviewLine (tables s))"
  by (simp add: overview_def foldl_append_concat)

lemma includes_str_overviewLine:
  assumes "t \<in> set (tables s)"
  shows "includes_str (overview s) (overviewLine t)"
proof -
  from assms obtain ys zs where "tables s = ys @ t # zs" by (auto dest: split_list)
  then have "overview s =
      (overviewHeader @ concat (map overviewLine ys)) @ overviewLine t @ concat (map overviewLine zs)"
    by (simp add: overview_eq)
  then show ?thesis unfolding includes_str_iff by blast
qed

lemma map_of_foldl_update:
  "map_of (foldl (\<lambda>fs t. AList.update (k t) (v t) fs) fs0 ts) key =
     (if filter (\<lambda>t. k t = key) ts = [] then map_of fs0 key
      else Some (v (last (filter (\<lambda>t. k t = key) ts))))"
proof (induction ts rule: rev_induct)
  case Nil
  show ?case by simp
next
  case (snoc t ts)
  show ?case
  proof (cases "k t = key")
    case True
    then show ?thesis by (simp add: update_conv')
  next
    case False
    with snoc.IH show ?thesis by (simp add: update_conv')
  qed
qed

lemma tablePath_eq_iff: "tablePath u = tablePath t \<longleftrightarrow> table_name u = table_name t"
  by (simp add: tablePath_def)

lemma tablePath_not_fixed:
  "tablePath t \<noteq> ''schema/overview.md''"
  "tablePath t \<noteq> ''schema/relationships.md''"
  "tablePath t \<noteq> ''schema/summary.md''"
  by (simp_all add: tablePath_def)

lemma lookup_table:
  assumes "t \<in> set (tables s)"
  shows "map_of (schemaToFiles s) (tablePath t) =
           Some (tableContent s (last (filter (\<lambda>u. table_name u = table_name t) (tables s))))"
proof -
  from assms have "filter (\<lambda>u. tablePath u = tablePath t) (tables s) \<noteq> []"
    by (auto simp: filter_empty_conv)
  then show ?thesis
    by (simp add: schemaToFiles_def Let_def update_conv' tablePath_not_fixed
        map_of_foldl_update tablePath_eq_iff)
qed

lemma lookup_overview:
  "map_of (schemaToFiles s) ''schema/overview.md'' = Some (overview s)"
proof -
  have "filter (\<lambda>u. tablePath u = ''schema/overview.md'') (tables s) = []"
    by (simp add: filter_empty_conv tablePath_not_fixed)
  then show ?thesis
    by (simp add: schemaToFiles_def Let_def update_conv' map_of_foldl_update)
qed

lemma filter_distinct_key:
  "distinct (map f xs) \<Longrightarrow> t \<in> set xs \<Longrightarrow> filter (\<lambda>u. f u = f t) xs = [t]"
proof (induction xs)
  case Nil
  then show ?case by simp
next
  case (Cons x xs)
  show ?case
  proof (cases "x = t")
    case True
    with Cons.prems(1) have "f t \<notin> f ` set xs" by simp
    then have "\<forall>u\<in>set xs. f u \<noteq> f t" by (metis imageI)
    then have "filter (\<lambda>u. f u = f t) xs = []" by (simp add: filter_empty_conv)
    with True show ?thesis by simp
  next
    case False
    with Cons.prems have "t \<in> set xs" "f x \<noteq> f t" by auto
    with Cons show ?thesis by simp
  qed
qed

text \<open>
  C9, as stated, fails: of two tables with the same name and no columns, the first has
  no file of its own. The one file at their path is written from the second table,
  with its type and schema.
\<close>

theorem C9_counterexample:
  "map fst (schemaToFiles
     \<lparr>tables =
        [\<lparr>table_schema = ''public'', table_name = ''orders'', table_type = ''BASE TABLE''\<rparr>,
         \<lparr>table_schema = ''other'', table_name = ''orders'', table_type = ''VIEW''\<rparr>],
      columns = [], foreignKeys = []\<rparr>) =
     [''schema/overview.md'', ''schema/tables/orders.md'', ''schema/summary.md''] \<and>
   map_of (schemaToFiles
     \<lparr>tables =
        [\<lparr>table_schema = ''public'', table_name = ''orders'', table_type = ''BASE TABLE''\<rparr>,
         \<lparr>table_schema = ''other'', table_name = ''orders'', table_type = ''VIEW''\<rparr>],
      columns = [], foreignKeys = []\<rparr>) ''schema/tables/orders.md'' =
     Some ''# Table: orders\<newline>\<newline>Type: VIEW\<newline>Schema: other\<newline>\<newline>## Columns\<newline>\<newline>| Column | Type | Nullable | Default |\<newline>|--------|------|----------|--------|\<newline>''"
  by code_simp

lemma tableContent_no_columns:
  assumes "\<forall>c\<in>set (columns s). col_table_name c \<noteq> table_name t'"
  shows "tableContent s t' =
     ''# Table: '' @ table_name t' @ ''\<newline>\<newline>Type: '' @ table_type t' @
     ''\<newline>Schema: '' @ table_schema t' @
     ''\<newline>\<newline>## Columns\<newline>\<newline>| Column | Type | Nullable | Default |\<newline>|--------|------|----------|--------|\<newline>'' @
     (if filter (\<lambda>fk. fk_table_name fk = table_name t') (foreignKeys s) = [] then []
      else ''\<newline>## Foreign Keys\<newline>\<newline>'' @
           concat (map (\<lambda>fk. ''- '' @ fk_column_name fk @ '' '' @ [CHR 0xE2, CHR 0x86, CHR 0x92] @
                          '' '' @ foreign_table_name fk @ ''.'' @ foreign_column_name fk @
                          ''\<newline>'')
                     (filter (\<lambda>fk. fk_table_name fk = table_name t') (foreignKeys s))))"
proof -
  from assms have "tableColumns s t' = []"
    by (simp add: tableColumns_def filter_empty_conv)
  then have "columnRows s t' = []" by (simp add: columnRows_def)
  then show ?thesis
    by (simp add: tableContent_def tableHeading_def columnsHeader_def foreignKeysSection_def
        tableFKs_def foldl_append_concat foreignKeyLine_def arrow_def nl_def)
qed

lemma overview_literal:
  "overview s =
     ''# Database Schema Overview\<newline>\<newline>## Tables\<newline>\<newline>'' @
     concat (map (\<lambda>u. ''- '' @ table_name u @ '' ('' @ table_type u @ '')\<newline>'') (tables s))"
  by (simp add: overview_def foldl_append_concat overviewHeader_def overviewLine_def nl_def)

text \<open>
  C9 (amended). A table none of whose columns is in the schema has a file at its path
  \<^verbatim>\<open>schema/tables/<name>.md\<close>. The file is written from the last table of that name
  in the list, which is the table itself when no name is repeated: its heading, type
  and schema, and the header of the column table with no row under it, followed by the
  foreign keys of that name, if any, or by nothing. The overview has a line for the
  table, with its name and type.
\<close>

theorem C9_table_without_columns:
  assumes "t \<in> set (tables s)"
    and "\<forall>c\<in>set (columns s). col_table_name c \<noteq> table_name t"
  shows "(\<exists>t'\<in>set (tables s).
            t' = last (filter (\<lambda>u. table_name u = table_name t) (tables s)) \<and>
            table_name t' = table_name t \<and>
            (distinct (map table_name (tables s)) \<longrightarrow> t' = t) \<and>
            map_of (schemaToFiles s) (''schema/tables/'' @ table_name t @ ''.md'') =
              Some (''# Table: '' @ table_name t @ ''\<newline>\<newline>Type: '' @ table_type t' @
                    ''\<newline>Schema: '' @ table_schema t' @
                    ''\<newline>\<newline>## Columns\<newline>\<newline>| Column | Type | Nullable | Default |\<newline>|--------|------|----------|--------|\<newline>'' @
                    (if filter (\<lambda>fk. fk_table_name fk = table_name t) (foreignKeys s) = []
                     then []
                     else ''\<newline>## Foreign Keys\<newline>\<newline>'' @
                          concat (map (\<lambda>fk. ''- '' @ fk_column_name fk @ '' '' @
                                         [CHR 0xE2, CHR 0x86, CHR 0x92] @ '' '' @
                                         foreign_table_name fk @ ''.'' @
                                         foreign_column_name fk @ ''\<newline>'')
                                    (filter (\<lambda>fk. fk_table_name fk = table_name t)
                                       (foreignKeys s)))))) \<and>
         map_of (schemaToFiles s) ''schema/overview.md'' =
           Some (''# Database Schema Overview\<newline>\<newline>## Tables\<newline>\<newline>'' @
                 concat (map (\<lambda>u. ''- '' @ table_name u @ '' ('' @ table_type u @ '')\<newline>'')
                           (tables s))) \<and>
         (\<exists>a b. ''# Database Schema Overview\<newline>\<newline>## Tables\<newline>\<newline>'' @
                 concat (map (\<lambda>u. ''- '' @ table_name u @ '' ('' @ table_type u @ '')\<newline>'')
                           (tables s)) =
                 a @ (''- '' @ table_name t @ '' ('' @ table_type t @ '')\<newline>'') @ b)"
proof -
  define us where "us = filter (\<lambda>u. table_name u = table_name t) (tables s)"
  define t' where "t' = last us"
  from assms(1) have ne: "us \<noteq> []" by (auto simp: us_def filter_empty_conv)
  then have "t' \<in> set us" unfolding t'_def by (rule last_in_set)
  then have mem: "t' \<in> set (tables s)" and name: "table_name t' = table_name t"
    by (simp_all add: us_def)
  have dist: "distinct (map table_name (tables s)) \<longrightarrow> t' = t"
    using filter_distinct_key [of table_name "tables s" t] assms(1)
    by (auto simp: t'_def us_def)
  from assms(2) name have "\<forall>c\<in>set (columns s). col_table_name c \<noteq> table_name t'" by simp
  from tableContent_no_columns [OF this] lookup_table [OF assms(1)] name
  have doc: "map_of (schemaToFiles s) (''schema/tables/'' @ table_name t @ ''.md'') =
     Some (''# Table: '' @ table_name t @ ''\<newline>\<newline>Type: '' @ table_type t' @
           ''\<newline>Schema: '' @ table_schema t' @
           ''\<newline>\<newline>## Columns\<newline>\<newline>| Column | Type | Nullable | Default |\<newline>|--------|------|----------|--------|\<newline>'' @
           (if filter (\<lambda>fk. fk_table_name fk = table_name t) (foreignKeys s) = [] then []
            else ''\<newline>## Foreign Keys\<newline>\<newline>'' @
                 concat (map (\<lambda>fk. ''- '' @ fk_column_name fk @ '' '' @
                                [CHR 0xE2, CHR 0x86, CHR 0x92] @ '' '' @
                                foreign_table_name fk @ ''.'' @
                                foreign_column_name fk @ ''\<newline>'')
                           (filter (\<lambda>fk. fk_table_name fk = table_name t) (foreignKeys s)))))"
    by (simp add: t'_def us_def tablePath_def)
  have ov: "map_of (schemaToFiles s) ''schema/overview.md'' =
           Some (''# Database Schema Overview\<newline>\<newline>## Tables\<newline>\<newline>'' @
                 concat (map (\<lambda>u. ''- '' @ table_name u @ '' ('' @ table_type u @ '')\<newline>'')
                           (tables s)))"
    using lookup_overview [of s] by (simp add: overview_literal)
  from assms(1) obtain ys zs where "tables s = ys @ t # zs" by (auto dest: split_list)
  then have "''# Database Schema Overview\<newline>\<newline>## Tables\<newline>\<newline>'' @
                 concat (map (\<lambda>u. ''- '' @ table_name u @ '' ('' @ table_type u @ '')\<newline>'')
                           (tables s)) =
     (''# Database Schema Overview\<newline>\<newline>## Tables\<newline>\<newline>'' @
        concat (map (\<lambda>u. ''- '' @ table_name u @ '' ('' @ table_type u @ '')\<newline>'') ys)) @
     (''- '' @ table_name t @ '' ('' @ table_type t @ '')\<newline>'') @
     concat (map (\<lambda>u. ''- '' @ table_name u @ '' ('' @ table_type u @ '')\<newline>'') zs)"
    by simp
  then have listed: "\<exists>a b. ''# Database Schema Overview\<newline>\<newline>## Tables\<newline>\<newline>'' @
                 concat (map (\<lambda>u. ''- '' @ table_name u @ '' ('' @ table_type u @ '')\<newline>'')
                           (tables s)) =
                 a @ (''- '' @ table_name t @ '' ('' @ table_type t @ '')\<newline>'') @ b"
    by blast
  have "t' = last (filter (\<lambda>u. table_name u = table_name t) (tables s))"
    by (simp add: t'_def us_def)
  with mem name dist doc ov listed show ?thesis by blast
qed

theorem C9_table_without_columns_witness:
  "example_empty_table \<in>
     set (tables (example_schema\<lparr>tables := tables example_schema @ [example_empty_table]\<rparr>)) \<and>
   list_all (\<lambda>c. col_table_name c \<noteq> table_name example_empty_table)
     (columns (example_schema\<lparr>tables := tables example_schema @ [example_empty_table]\<rparr>)) \<and>
   map_of (schemaToFiles (example_schema\<lparr>tables := tables example_schema @ [example_empty_table]\<rparr>))
     ''schema/tables/audit_log.md'' =
     Some ''# Table: audit_log\<newline>\<newline>Type: VIEW\<newline>Schema: public\<newline>\<newline>## Columns\<newline>\<newline>| Column | Type | Nullable | Default |\<newline>|--------|------|----------|--------|\<newline>'' \<and>
   map_of (schemaToFiles (example_schema\<lparr>tables := tables example_schema @ [example_empty_table]\<rparr>))
     ''schema/overview.md'' =
     Some ''# Database Schema Overview\<newline>\<newline>## Tables\<newline>\<newline>- orders (BASE TABLE)\<newline>- audit_log (VIEW)\<newline>''"
proof -
  let ?s = "example_schema\<lparr>tables := tables example_schema @ [example_empty_table]\<rparr>"
  have h1: "example_empty_table \<in> set (tables ?s)" by simp
  have h2: "\<forall>c\<in>set (columns ?s). col_table_name c \<noteq> table_name example_empty_table" by simp
  have h2': "list_all (\<lambda>c. col_table_name c \<noteq> table_name example_empty_table) (columns ?s)"
    by simp
  have d: "distinct (map table_name (tables ?s))" by simp
  from C9_table_without_columns [OF h1 h2] d
  have "map_of (schemaToFiles ?s) ''schema/tables/audit_log.md'' =
     Some ''# Table: audit_log\<newline>\<newline>Type: VIEW\<newline>Schema: public\<newline>\<newline>## Columns\<newline>\<newline>| Column | Type | Nullable | Default |\<newline>|--------|------|----------|--------|\<newline>''"
    and "map_of (schemaToFiles ?s) ''schema/overview.md'' =
     Some ''# Database Schema Overview\<newline>\<newline>## Tables\<newline>\<newline>- orders (BASE TABLE)\<newline>- audit_log (VIEW)\<newline>''"
    by auto
  with h1 h2' show ?thesis by blast
qed

end
